theory Spec2Isabelle
  imports Main
begin

section \<open>JavaScript values\<close>

text \<open>
  The store receives payloads built by the HTTP layer and documents read back with
  \<^verbatim>\<open>JSON.parse\<close>. Both are JavaScript values. A string is a list of code units;
  a \<^typ>\<open>char\<close> stands for a code unit below 256. The code tests a number only for
  its truthiness and its type, so a number is modelled by an integer (zero is falsy).
  An object is the list of its own properties; where an object literal of the source
  overrides a spread property, the overriding entry stands first and \<open>map_of\<close>
  finds it.
\<close>

datatype jsval =
    JUndefined
  | JNull
  | JBool bool
  | JNum int
  | JStr string
  | JArr "jsval list"
  | JObj "(string \<times> jsval) list"

text \<open>\<^verbatim>\<open>Boolean(v)\<close>, also the test of \<^verbatim>\<open>!v\<close> and \<^verbatim>\<open>v || w\<close>.\<close>

fun truthy :: "jsval \<Rightarrow> bool" where
  "truthy JUndefined = False"
| "truthy JNull = False"
| "truthy (JBool b) = b"
| "truthy (JNum n) = (n \<noteq> 0)"
| "truthy (JStr s) = (s \<noteq> [])"
| "truthy (JArr xs) = True"
| "truthy (JObj kvs) = True"

text \<open>\<^verbatim>\<open>v && typeof v === 'object'\<close>: arrays and objects, not null.\<close>

fun is_object :: "jsval \<Rightarrow> bool" where
  "is_object (JArr xs) = True"
| "is_object (JObj kvs) = True"
| "is_object v = False"

text \<open>
  Reading a property of \<^verbatim>\<open>null\<close> or \<^verbatim>\<open>undefined\<close> raises a TypeError; the
  callers below test \<open>nullish\<close> first. On every other value a missing property is
  \<^verbatim>\<open>undefined\<close>: none of the names the store reads is a property of an array, a
  string, a number or a boolean.
\<close>

fun nullish :: "jsval \<Rightarrow> bool" where
  "nullish JUndefined = True"
| "nullish JNull = True"
| "nullish v = False"

fun get :: "jsval \<Rightarrow> string \<Rightarrow> jsval" where
  "get (JObj kvs) k = (case map_of kvs k of Some v \<Rightarrow> v | None \<Rightarrow> JUndefined)"
| "get v k = JUndefined"

text \<open>
  The own enumerable properties an object spread \<^verbatim>\<open>{...v}\<close> copies. The index-named
  properties of an array or a string are left out: the store never reads them.
\<close>

fun spread :: "jsval \<Rightarrow> (string \<times> jsval) list" where
  "spread (JObj kvs) = kvs"
| "spread v = []"

text \<open>
  \<^verbatim>\<open>String.prototype.trim\<close> strips white space and line terminators from both ends;
  below 256 these are the code units 9 to 13, 32 and 160.
\<close>

definition is_space :: "char \<Rightarrow> bool" where
  "is_space c = (of_char c \<in> {9, 10, 11, 12, 13, 32, 160 :: nat})"

definition trim :: "string \<Rightarrow> string" where
  "trim s = rev (dropWhile is_space (rev (dropWhile is_space s)))"

section \<open>The document\<close>

record employee =
  e_id :: string
  e_name :: string
  e_department :: string
  e_role :: string
  e_photo :: string
  e_isCheckedIn :: bool

record absence =
  a_id :: string
  a_employeeId :: string
  a_from :: string
  a_to :: string
  a_reason :: string

record branding =
  logo :: string

record document =
  branding :: branding
  employees :: "employee list"
  absences :: "absence list"

text \<open>The fallback department: the letter O with stroke (code unit 216), then \<^verbatim>\<open>vrige\<close>.\<close>

definition other_department :: string where
  "other_department = char_of (216 :: nat) # ''vrige''"

definition unknown_name :: string where
  "unknown_name = ''Ukendt medarbejder''"

definition seed :: "string \<Rightarrow> string \<Rightarrow> string \<Rightarrow> string \<Rightarrow> bool \<Rightarrow> employee" where
  "seed i n d r c =
     \<lparr>e_id = i, e_name = n, e_department = d, e_role = r, e_photo = '''', e_isCheckedIn = c\<rparr>"

definition DEFAULT_STATE :: document where
  "DEFAULT_STATE =
     \<lparr>branding = \<lparr>logo = ''''\<rparr>,
      employees =
        [seed ''amalie-korvig'' ''Amalie Korvig'' ''Administration'' ''Receptionist'' True,
         seed ''jonas-lindholm'' ''Jonas Lindholm'' ''Administration'' ''HR-partner'' False,
         seed ''freja-holm'' ''Freja Holm'' ''Design'' ''Lead Designer'' True,
         seed ''mathias-hagen'' ''Mathias Hagen'' ''Design'' ''UX Designer'' False,
         seed ''henrik-nord'' ''Henrik Nord'' ''Salg'' ''Salgschef'' True,
         seed ''sofie-iversen'' ''Sofie Iversen'' ''Salg'' ''Account Manager'' False],
      absences = []\<rparr>"

section \<open>The environment\<close>

text \<open>
  What the code takes from outside: \<^verbatim>\<open>crypto.randomUUID()\<close> (the \<open>n\<close>-th
  identifier drawn), the time value of \<^verbatim>\<open>new Date(s)\<close> (\<open>None\<close> for an invalid
  date, whose comparisons are all false), and whether the \<open>n\<close>-th write of the backing
  file succeeds. The number of identifiers drawn so far is threaded through every
  function that draws one.
\<close>

record env =
  randomUUID :: "nat \<Rightarrow> string"
  dateValue :: "string \<Rightarrow> int option"
  writeOk :: "nat \<Rightarrow> bool"

text \<open>\<^verbatim>\<open>new Date(from) > new Date(to)\<close>\<close>

definition date_gt :: "env \<Rightarrow> string \<Rightarrow> string \<Rightarrow> bool" where
  "date_gt E from to =
     (case dateValue E from of
        None \<Rightarrow> False
      | Some a \<Rightarrow> (case dateValue E to of None \<Rightarrow> False | Some b \<Rightarrow> a > b))"

section \<open>The normaliser\<close>

text \<open>\<^verbatim>\<open>typeof v === 'string' && v.trim() ? v.trim() : d\<close>\<close>

fun trimmed_or :: "jsval \<Rightarrow> string \<Rightarrow> string" where
  "trimmed_or (JStr s) d = (if trim s \<noteq> [] then trim s else d)"
| "trimmed_or v d = d"

text \<open>\<^verbatim>\<open>typeof v === 'string' ? v.trim() : ''\<close>\<close>

fun trimmed :: "jsval \<Rightarrow> string" where
  "trimmed (JStr s) = trim s"
| "trimmed v = []"

text \<open>
  \<^verbatim>\<open>typeof v === 'string' && v.trim() ? v.trim() : crypto.randomUUID()\<close>, with the
  number of identifiers drawn.
\<close>

fun id_or_uuid :: "env \<Rightarrow> jsval \<Rightarrow> nat \<Rightarrow> string \<times> nat" where
  "id_or_uuid E (JStr s) k = (if trim s \<noteq> [] then (trim s, k) else (randomUUID E k, Suc k))"
| "id_or_uuid E v k = (randomUUID E k, Suc k)"

definition normaliseEmployee :: "env \<Rightarrow> jsval \<Rightarrow> nat \<Rightarrow> employee \<times> nat" where
  "normaliseEmployee E employee k =
     (if \<not> truthy employee \<or> \<not> is_object employee then
        (\<lparr>e_id = randomUUID E k, e_name = unknown_name, e_department = other_department,
          e_role = [], e_photo = [], e_isCheckedIn = False\<rparr>, Suc k)
      else
        (\<lparr>e_id = fst (id_or_uuid E (get employee ''id'') k),
          e_name = trimmed_or (get employee ''name'') unknown_name,
          e_department = trimmed_or (get employee ''department'') other_department,
          e_role = trimmed (get employee ''role''),
          e_photo = trimmed (get employee ''photo''),
          e_isCheckedIn = truthy (get employee ''isCheckedIn'')\<rparr>,
         snd (id_or_uuid E (get employee ''id'') k)))"

text \<open>
  The loop \<^verbatim>\<open>while (taken.has(candidate)) candidate = crypto.randomUUID()\<close>. It runs
  for as long as the identifiers drawn are taken, so it is a partial function: \<open>None\<close>
  is the loop that never ends.
\<close>

partial_function (option) fresh_candidate ::
  "env \<Rightarrow> string set \<Rightarrow> string \<Rightarrow> nat \<Rightarrow> (string \<times> nat) option" where
  "fresh_candidate E taken candidate k =
     (if candidate \<in> taken then fresh_candidate E taken (randomUUID E k) (Suc k)
      else Some (candidate, k))"

declare fresh_candidate.simps [code]

text \<open>
  \<^verbatim>\<open>employees.map(...)\<close> of \<open>normaliseEmployeeList\<close>, with the set \<open>taken\<close> its
  callback closes over. \<^verbatim>\<open>normalised.id || crypto.randomUUID()\<close> draws when the
  identifier is the empty string.
\<close>

fun normaliseEmployeeList_from ::
  "env \<Rightarrow> string set \<Rightarrow> jsval list \<Rightarrow> nat \<Rightarrow> (employee list \<times> nat) option" where
  "normaliseEmployeeList_from E taken [] k = Some ([], k)"
| "normaliseEmployeeList_from E taken (x # xs) k =
     (let (normalised, k1) = normaliseEmployee E x k;
          (c0, k2) = (if e_id normalised \<noteq> [] then (e_id normalised, k1)
                      else (randomUUID E k1, Suc k1))
      in case fresh_candidate E taken c0 k2 of
           None \<Rightarrow> None
         | Some (candidate, k3) \<Rightarrow>
             (case normaliseEmployeeList_from E (insert candidate taken) xs k3 of
                None \<Rightarrow> None
              | Some (rest, k4) \<Rightarrow> Some (normalised\<lparr>e_id := candidate\<rparr> # rest, k4)))"

definition normaliseEmployeeList :: "env \<Rightarrow> jsval list \<Rightarrow> nat \<Rightarrow> (employee list \<times> nat) option" where
  "normaliseEmployeeList E raws k = normaliseEmployeeList_from E {} raws k"

text \<open>\<open>validIds = None\<close> is the default argument \<^verbatim>\<open>validIds = null\<close>.\<close>

definition normaliseAbsence ::
  "env \<Rightarrow> jsval \<Rightarrow> string set option \<Rightarrow> nat \<Rightarrow> absence option \<times> nat" where
  "normaliseAbsence E absence validIds k =
     (if \<not> truthy absence \<or> \<not> is_object absence then (None, k)
      else case get absence ''employeeId'' of
        JStr employeeId \<Rightarrow>
          if employeeId = [] \<or> (case validIds of None \<Rightarrow> False | Some V \<Rightarrow> employeeId \<notin> V)
          then (None, k)
          else (case get absence ''from'' of
            JStr from \<Rightarrow>
              (case get absence ''to'' of
                 JStr to \<Rightarrow>
                   if from = [] \<or> to = [] then (None, k)
                   else if date_gt E from to then (None, k)
                   else
                     (Some \<lparr>a_id = fst (id_or_uuid E (get absence ''id'') k),
                            a_employeeId = employeeId, a_from = from, a_to = to,
                            a_reason = (case get absence ''reason'' of JStr r \<Rightarrow> r | _ \<Rightarrow> ''other'')\<rparr>,
                      snd (id_or_uuid E (get absence ''id'') k))
               | _ \<Rightarrow> (None, k))
          | _ \<Rightarrow> (None, k))
      | _ \<Rightarrow> (None, k))"

text \<open>\<^verbatim>\<open>absences.map(...).filter(Boolean)\<close>\<close>

fun normaliseAbsenceList :: "env \<Rightarrow> jsval list \<Rightarrow> string set \<Rightarrow> nat \<Rightarrow> absence list \<times> nat" where
  "normaliseAbsenceList E [] validIds k = ([], k)"
| "normaliseAbsenceList E (x # xs) validIds k =
     (let (r, k1) = normaliseAbsence E x (Some validIds) k;
          (rest, k2) = normaliseAbsenceList E xs validIds k1
      in (case r of None \<Rightarrow> rest | Some a \<Rightarrow> a # rest, k2))"

definition normaliseBranding :: "jsval \<Rightarrow> branding" where
  "normaliseBranding raw =
     (if \<not> truthy raw \<or> \<not> is_object raw then \<lparr>logo = []\<rparr>
      else \<lparr>logo = (case get raw ''logo'' of JStr s \<Rightarrow> s | _ \<Rightarrow> [])\<rparr>)"

definition normaliseState :: "env \<Rightarrow> jsval \<Rightarrow> nat \<Rightarrow> (document \<times> nat) option" where
  "normaliseState E raw k =
     (if \<not> truthy raw \<or> \<not> is_object raw then Some (DEFAULT_STATE, k)
      else
        case (case get raw ''employees'' of
                JArr (x # xs) \<Rightarrow> normaliseEmployeeList E (x # xs) k
              | _ \<Rightarrow> Some (employees DEFAULT_STATE, k)) of
          None \<Rightarrow> None
        | Some (emps, k1) \<Rightarrow>
            (let validIds = set (map e_id emps);
                 (kept, k2) = (case get raw ''absences'' of
                                JArr xs \<Rightarrow> normaliseAbsenceList E xs validIds k1
                              | _ \<Rightarrow> ([], k1))
             in Some (\<lparr>branding = normaliseBranding (get raw ''branding''),
                       employees = emps, absences = kept\<rparr>, k2)))"

section \<open>The store\<close>

text \<open>
  The backing file holds JSON text. \<^verbatim>\<open>JSON.stringify\<close> of a document (strings and
  booleans in objects and arrays) followed by \<^verbatim>\<open>JSON.parse\<close> gives the same tree
  back, so the file is modelled by the tree it holds: \<open>Content v\<close>. \<open>Missing\<close> is the
  file that does not exist (\<^verbatim>\<open>ENOENT\<close>), \<open>Unreadable\<close> one that cannot be read or
  parsed.
\<close>

datatype file_content = Missing | Unreadable | Content jsval

definition employee_json :: "employee \<Rightarrow> (string \<times> jsval) list" where
  "employee_json e =
     [(''id'', JStr (e_id e)), (''name'', JStr (e_name e)),
      (''department'', JStr (e_department e)), (''role'', JStr (e_role e)),
      (''photo'', JStr (e_photo e)), (''isCheckedIn'', JBool (e_isCheckedIn e))]"

definition absence_json :: "absence \<Rightarrow> (string \<times> jsval) list" where
  "absence_json a =
     [(''id'', JStr (a_id a)), (''employeeId'', JStr (a_employeeId a)),
      (''from'', JStr (a_from a)), (''to'', JStr (a_to a)), (''reason'', JStr (a_reason a))]"

definition document_json :: "document \<Rightarrow> jsval" where
  "document_json d =
     JObj [(''branding'', JObj [(''logo'', JStr (logo (branding d)))]),
           (''employees'', JArr (map (\<lambda>e. JObj (employee_json e)) (employees d))),
           (''absences'', JArr (map (\<lambda>a. JObj (absence_json a)) (absences d)))]"

text \<open>
  The store object and its file: \<open>state\<close> is \<^verbatim>\<open>this.state\<close>, \<open>disk\<close> what the
  file at \<^verbatim>\<open>this.filePath\<close> holds, \<open>uuids\<close> the number of
  identifiers drawn so far and \<open>writes\<close> the number of writes attempted so far.
\<close>

record store =
  state :: document
  disk :: file_content
  uuids :: nat
  writes :: nat

text \<open>
  The errors an operation rejects with. The source throws plain \<^verbatim>\<open>Error\<close> objects
  told apart by their messages: \<open>ValidationError\<close> stands for the message of
  \<open>addEmployee\<close> (name and title are required) and that of \<open>addAbsence\<close> (invalid
  absence), \<open>NotFoundError\<close> for \<^verbatim>\<open>Medarbejder ikke fundet\<close> and the like message
  of \<open>removeAbsence\<close>, \<open>PersistenceError\<close> for a rejection of \<^verbatim>\<open>fs.mkdir\<close> or
  \<^verbatim>\<open>fs.writeFile\<close>, and \<open>TypeError\<close> for reading a property of \<^verbatim>\<open>null\<close> or
  \<^verbatim>\<open>undefined\<close>.
\<close>

datatype error = ValidationError | NotFoundError | PersistenceError | TypeError

text \<open>
  \<open>persist\<close> writes the whole of \<^verbatim>\<open>this.state\<close>. A write that fails is taken to
  leave the file as it was.
\<close>

definition persist :: "env \<Rightarrow> store \<Rightarrow> (error + unit) \<times> store" where
  "persist E s =
     (if writeOk E (writes s)
      then (Inr (), s\<lparr>disk := Content (document_json (state s)), writes := Suc (writes s)\<rparr>)
      else (Inl PersistenceError, s\<lparr>writes := Suc (writes s)\<rparr>))"

text \<open>\<^verbatim>\<open>await this.persist(); return v\<close>\<close>

definition persist_then :: "env \<Rightarrow> store \<Rightarrow> 'a \<Rightarrow> (error + 'a) \<times> store" where
  "persist_then E s v =
     (case persist E s of
        (Inl e, s') \<Rightarrow> (Inl e, s')
      | (Inr u, s') \<Rightarrow> (Inr v, s'))"

definition getState :: "store \<Rightarrow> document" where
  "getState s = state s"

text \<open>
  \<open>init\<close> is \<open>None\<close> when the normaliser's loop never ends. Any failure of the read or
  of the parse falls back to the default document, which is then written.
\<close>

definition init :: "env \<Rightarrow> store \<Rightarrow> ((error + unit) \<times> store) option" where
  "init E s =
     (case disk s of
        Content parsed \<Rightarrow>
          (case normaliseState E parsed (uuids s) of
             None \<Rightarrow> None
           | Some (d, k) \<Rightarrow> Some (Inr (), s\<lparr>state := d, uuids := k\<rparr>))
      | _ \<Rightarrow> Some (persist E (s\<lparr>state := DEFAULT_STATE\<rparr>)))"

text \<open>The logo path is a string: the HTTP layer builds it from the uploaded file's name.\<close>

definition setBrandingLogo :: "env \<Rightarrow> string \<Rightarrow> store \<Rightarrow> (error + document \<times> string) \<times> store" where
  "setBrandingLogo E logoPath s =
     (let previousLogo = logo (branding (state s));
          s1 = s\<lparr>state := (state s)\<lparr>branding := (branding (state s))\<lparr>logo := logoPath\<rparr>\<rparr>\<rparr>
      in persist_then E s1 (state s1, previousLogo))"

definition removeBrandingLogo :: "env \<Rightarrow> store \<Rightarrow> (error + document \<times> string) \<times> store" where
  "removeBrandingLogo E s =
     (let previousLogo = logo (branding (state s));
          s1 = s\<lparr>state := (state s)\<lparr>branding := (branding (state s))\<lparr>logo := []\<rparr>\<rparr>\<rparr>
      in persist_then E s1 (state s1, previousLogo))"

text \<open>\<^verbatim>\<open>payload.id || crypto.randomUUID()\<close>\<close>

definition id_or_draw :: "env \<Rightarrow> jsval \<Rightarrow> nat \<Rightarrow> jsval \<times> nat" where
  "id_or_draw E payload k =
     (if truthy (get payload ''id'') then (get payload ''id'', k)
      else (JStr (randomUUID E k), Suc k))"

definition addEmployee :: "env \<Rightarrow> jsval \<Rightarrow> store \<Rightarrow> (error + employee) \<times> store" where
  "addEmployee E payload s =
     (if nullish payload then (Inl TypeError, s)
      else
        let (idv, k1) = id_or_draw E payload (uuids s);
            (employee, k2) =
              normaliseEmployee E
                (JObj ((''id'', idv)
                       # (''isCheckedIn'', JBool (truthy (get payload ''isCheckedIn'')))
                       # spread payload)) k1;
            s1 = s\<lparr>uuids := k2\<rparr>
        in if e_name employee = [] \<or> e_role employee = [] then (Inl ValidationError, s1)
           else persist_then E
                  (s1\<lparr>state := (state s1)\<lparr>employees := employees (state s1) @ [employee]\<rparr>\<rparr>)
                  employee)"

text \<open>
  The object \<^verbatim>\<open>{...employee, ...updates, id: employee.id, isCheckedIn: ...}\<close> that
  \<open>updateEmployee\<close> normalises.
\<close>

definition merged :: "employee \<Rightarrow> jsval \<Rightarrow> jsval" where
  "merged employee updates =
     JObj ((''id'', JStr (e_id employee))
           # (''isCheckedIn'',
              JBool (case get updates ''isCheckedIn'' of
                       JBool b \<Rightarrow> b
                     | _ \<Rightarrow> e_isCheckedIn employee))
           # spread updates @ employee_json employee)"

text \<open>
  The \<^verbatim>\<open>map\<close> of \<open>updateEmployee\<close>: the new list, the value of \<^verbatim>\<open>updatedEmployee\<close>
  (the last one written) and the number of identifiers drawn.
\<close>

fun updateEmployee_map ::
  "env \<Rightarrow> string \<Rightarrow> jsval \<Rightarrow> employee list \<Rightarrow> employee option \<Rightarrow> nat
   \<Rightarrow> employee list \<times> employee option \<times> nat" where
  "updateEmployee_map E i updates [] updated k = ([], updated, k)"
| "updateEmployee_map E i updates (e # es) updated k =
     (if e_id e \<noteq> i then
        (let (es', u, k') = updateEmployee_map E i updates es updated k in (e # es', u, k'))
      else
        (let (ne, k1) = normaliseEmployee E (merged e updates) k;
             (es', u, k') = updateEmployee_map E i updates es (Some ne) k1
         in (ne # es', u, k')))"

text \<open>
  \<^verbatim>\<open>updates.isCheckedIn\<close> is read in the callback, for an employee with the identifier:
  a nullish \<open>updates\<close> raises there, before \<^verbatim>\<open>this.state\<close> is assigned.
\<close>

definition updateEmployee :: "env \<Rightarrow> string \<Rightarrow> jsval \<Rightarrow> store \<Rightarrow> (error + employee) \<times> store" where
  "updateEmployee E i updates s =
     (if nullish updates \<and> i \<in> set (map e_id (employees (state s))) then (Inl TypeError, s)
      else
        let (es, updatedEmployee, k) =
              updateEmployee_map E i updates (employees (state s)) None (uuids s);
            s1 = s\<lparr>state := (state s)\<lparr>employees := es\<rparr>, uuids := k\<rparr>
        in case updatedEmployee of
             None \<Rightarrow> (Inl NotFoundError, s1)
           | Some e \<Rightarrow> persist_then E s1 e)"

text \<open>\<^verbatim>\<open>removedEmployee\<close> is the last employee with the identifier.\<close>

definition last_option :: "'a list \<Rightarrow> 'a option" where
  "last_option xs = (case rev xs of [] \<Rightarrow> None | x # _ \<Rightarrow> Some x)"

definition removeEmployee :: "env \<Rightarrow> string \<Rightarrow> store \<Rightarrow> (error + employee) \<times> store" where
  "removeEmployee E i s =
     (case last_option (filter (\<lambda>e. e_id e = i) (employees (state s))) of
        None \<Rightarrow> (Inl NotFoundError, s)
      | Some removedEmployee \<Rightarrow>
          persist_then E
            (s\<lparr>state := (state s)
                 \<lparr>employees := filter (\<lambda>e. e_id e \<noteq> i) (employees (state s)),
                  absences := filter (\<lambda>a. a_employeeId a \<noteq> i) (absences (state s))\<rparr>\<rparr>)
            removedEmployee)"

definition setEmployeeStatus :: "env \<Rightarrow> string \<Rightarrow> jsval \<Rightarrow> store \<Rightarrow> (error + employee) \<times> store" where
  "setEmployeeStatus E i isCheckedIn s =
     (let es = map (\<lambda>e. if e_id e \<noteq> i then e else e\<lparr>e_isCheckedIn := truthy isCheckedIn\<rparr>)
                 (employees (state s));
          s1 = s\<lparr>state := (state s)\<lparr>employees := es\<rparr>\<rparr>
      in case last_option (filter (\<lambda>e. e_id e = i) es) of
           None \<Rightarrow> (Inl NotFoundError, s1)
         | Some updatedEmployee \<Rightarrow> persist_then E s1 updatedEmployee)"

definition addAbsence :: "env \<Rightarrow> jsval \<Rightarrow> store \<Rightarrow> (error + absence) \<times> store" where
  "addAbsence E payload s =
     (if nullish payload then (Inl TypeError, s)
      else
        let (idv, k1) = id_or_draw E payload (uuids s);
            (r, k2) =
              normaliseAbsence E
                (JObj [(''id'', idv), (''employeeId'', get payload ''employeeId''),
                       (''from'', get payload ''from''), (''to'', get payload ''to''),
                       (''reason'', get payload ''reason'')]) None k1;
            s1 = s\<lparr>uuids := k2\<rparr>
        in case r of
             None \<Rightarrow> (Inl ValidationError, s1)
           | Some absence \<Rightarrow>
               persist_then E
                 (s1\<lparr>state := (state s1)
                       \<lparr>absences :=
                          filter (\<lambda>entry. a_employeeId entry \<noteq> a_employeeId absence)
                            (absences (state s1)) @ [absence]\<rparr>\<rparr>)
                 absence)"

definition removeAbsence :: "env \<Rightarrow> string \<Rightarrow> store \<Rightarrow> (error + absence) \<times> store" where
  "removeAbsence E i s =
     (case last_option (filter (\<lambda>a. a_id a = i) (absences (state s))) of
        None \<Rightarrow> (Inl NotFoundError, s)
      | Some removed \<Rightarrow>
          persist_then E
            (s\<lparr>state := (state s)\<lparr>absences := filter (\<lambda>a. a_id a \<noteq> i) (absences (state s))\<rparr>\<rparr>)
            removed)"

section \<open>The mutation queue\<close>

text \<open>
  Every method of the store hands its body to \<open>enqueue\<close>; the definitions above are
  those bodies. An operation names a method call, and \<open>task\<close> is the body it submits.
\<close>

datatype operation =
    SetBrandingLogo string
  | RemoveBrandingLogo
  | AddEmployee jsval
  | UpdateEmployee string jsval
  | RemoveEmployee string
  | SetEmployeeStatus string jsval
  | AddAbsence jsval
  | RemoveAbsence string

datatype result =
    LogoResult document string
  | EmployeeResult employee
  | AbsenceResult absence

text \<open>
  A promise is modelled by the computation that settles it: from the store and its file
  as they are when the chain starts to run, to the outcome and the store and file as
  they are when the promise settles. \<^verbatim>\<open>p.then(f)\<close> calls \<open>f\<close> once \<open>p\<close> is fulfilled
  and passes a rejection on; \<^verbatim>\<open>p.catch(h)\<close> calls \<open>h\<close> once \<open>p\<close> is rejected and
  passes a value on. Reads by \<open>getState\<close> between two steps change nothing and are
  not part of the chain.
\<close>

type_synonym 'a promise = "store \<Rightarrow> (error + 'a) \<times> store"

definition resolve :: "'a \<Rightarrow> 'a promise" where
  "resolve v = (\<lambda>s. (Inr v, s))"

definition then_p :: "'a promise \<Rightarrow> ('a \<Rightarrow> 'b promise) \<Rightarrow> 'b promise" where
  "then_p p f = (\<lambda>s. case p s of (Inl e, s') \<Rightarrow> (Inl e, s') | (Inr v, s') \<Rightarrow> f v s')"

definition catch_p :: "'a promise \<Rightarrow> (error \<Rightarrow> 'a promise) \<Rightarrow> 'a promise" where
  "catch_p p h = (\<lambda>s. case p s of (Inl e, s') \<Rightarrow> h e s' | (Inr v, s') \<Rightarrow> (Inr v, s'))"

text \<open>
  \<open>enqueue\<close> returns \<^verbatim>\<open>run\<close> and the new value of \<^verbatim>\<open>this.queue\<close>; the queue of a
  new store is \<^verbatim>\<open>Promise.resolve()\<close>.
\<close>

definition enqueue :: "unit promise \<Rightarrow> 'a promise \<Rightarrow> 'a promise \<times> unit promise" where
  "enqueue queue t =
     (let run = then_p queue (\<lambda>u. t)
      in (run, catch_p (then_p run (\<lambda>v. resolve ())) (\<lambda>e. resolve ())))"

fun task :: "env \<Rightarrow> operation \<Rightarrow> result promise" where
  "task E (SetBrandingLogo p) = (\<lambda>s. apfst (map_sum (\<lambda>e. e) (\<lambda>(d, l). LogoResult d l)) (setBrandingLogo E p s))"
| "task E RemoveBrandingLogo = (\<lambda>s. apfst (map_sum (\<lambda>e. e) (\<lambda>(d, l). LogoResult d l)) (removeBrandingLogo E s))"
| "task E (AddEmployee p) = (\<lambda>s. apfst (map_sum (\<lambda>e. e) EmployeeResult) (addEmployee E p s))"
| "task E (UpdateEmployee i u) = (\<lambda>s. apfst (map_sum (\<lambda>e. e) EmployeeResult) (updateEmployee E i u s))"
| "task E (RemoveEmployee i) = (\<lambda>s. apfst (map_sum (\<lambda>e. e) EmployeeResult) (removeEmployee E i s))"
| "task E (SetEmployeeStatus i c) = (\<lambda>s. apfst (map_sum (\<lambda>e. e) EmployeeResult) (setEmployeeStatus E i c s))"
| "task E (AddAbsence p) = (\<lambda>s. apfst (map_sum (\<lambda>e. e) AbsenceResult) (addAbsence E p s))"
| "task E (RemoveAbsence i) = (\<lambda>s. apfst (map_sum (\<lambda>e. e) AbsenceResult) (removeAbsence E i s))"

text \<open>
  The method calls of a list of operations, in order: the promises they return and the
  queue they leave.
\<close>

fun submit_all ::
  "env \<Rightarrow> operation list \<Rightarrow> unit promise \<Rightarrow> result promise list \<times> unit promise" where
  "submit_all E [] queue = ([], queue)"
| "submit_all E (x # xs) queue =
     (let (run, queue') = enqueue queue (task E x);
          (runs, queue'') = submit_all E xs queue'
      in (run # runs, queue''))"

text \<open>
  The operations applied one after the other, each on the store and file the one before
  left, whatever its outcome: the list of outcomes and the last store.
\<close>

fun sequential :: "env \<Rightarrow> operation list \<Rightarrow> store \<Rightarrow> (error + result) list \<times> store" where
  "sequential E [] s = ([], s)"
| "sequential E (x # xs) s =
     (let (r, s') = task E x s;
          (rs, s'') = sequential E xs s'
      in (r # rs, s''))"

section \<open>A concrete environment\<close>

text \<open>
  An environment to evaluate the definitions in: identifiers that are pairwise
  different, the time values (in milliseconds) of two dates, and a disk that takes
  every write; and a new store, as its constructor leaves it.
\<close>

definition demo_uuid :: "nat \<Rightarrow> string" where
  "demo_uuid n = ''uuid-'' @ replicate n CHR ''0''"

definition demo_date :: "string \<Rightarrow> int option" where
  "demo_date = map_of [(''2024-01-01'', 1704067200000), (''2024-02-01'', 1706745600000)]"

definition demo_env :: env where
  "demo_env = \<lparr>randomUUID = demo_uuid, dateValue = demo_date, writeOk = (\<lambda>n. True)\<rparr>"

definition failing_disk :: env where
  "failing_disk = \<lparr>randomUUID = demo_uuid, dateValue = demo_date, writeOk = (\<lambda>n. False)\<rparr>"

definition new_store :: store where
  "new_store = \<lparr>state = DEFAULT_STATE, disk = Missing, uuids = 0, writes = 0\<rparr>"

text \<open>A store with two absences, of two of the default employees.\<close>

definition absent_store :: store where
  "absent_store =
     new_store\<lparr>state := DEFAULT_STATE\<lparr>absences :=
       [\<lparr>a_id = ''a1'', a_employeeId = ''freja-holm'', a_from = ''2024-01-01'',
         a_to = ''2024-02-01'', a_reason = ''other''\<rparr>,
        \<lparr>a_id = ''a2'', a_employeeId = ''henrik-nord'', a_from = ''2024-01-01'',
         a_to = ''2024-01-01'', a_reason = ''sick''\<rparr>]\<rparr>\<rparr>"

section \<open>What the operations promise\<close>

text \<open>
  The fields \<open>addAbsence\<close> checks, as the specification words them: \<open>employeeId\<close>,
  \<open>from\<close> and \<open>to\<close> are strings, none of them empty, and the date of \<open>from\<close> is not
  later than the date of \<open>to\<close>.
\<close>

definition nonempty_string :: "jsval \<Rightarrow> bool" where
  "nonempty_string v = (case v of JStr s \<Rightarrow> s \<noteq> [] | _ \<Rightarrow> False)"

definition the_string :: "jsval \<Rightarrow> string" where
  "the_string v = (case v of JStr s \<Rightarrow> s | _ \<Rightarrow> [])"

definition absence_fields_valid :: "env \<Rightarrow> jsval \<Rightarrow> bool" where
  "absence_fields_valid E payload =
     (nonempty_string (get payload ''employeeId'') \<and>
      nonempty_string (get payload ''from'') \<and>
      nonempty_string (get payload ''to'') \<and>
      \<not> date_gt E (the_string (get payload ''from'')) (the_string (get payload ''to'')))"

text \<open>
  An employee record as the normaliser leaves it: identifier, name and department are
  trimmed and not empty, role and photo are trimmed.
\<close>

definition canonical_employee :: "employee \<Rightarrow> bool" where
  "canonical_employee e =
     (e_id e \<noteq> [] \<and> trim (e_id e) = e_id e \<and>
      e_name e \<noteq> [] \<and> trim (e_name e) = e_name e \<and>
      e_department e \<noteq> [] \<and> trim (e_department e) = e_department e \<and>
      trim (e_role e) = e_role e \<and> trim (e_photo e) = e_photo e)"

text \<open>
  The record \<open>updateEmployee\<close> leaves, as the specification words it: a field that
  is a property of the partial is normalised from the partial, a field that is not keeps
  its value, the identifier stays, and \<open>isCheckedIn\<close> changes only to a boolean.
\<close>

definition merge_update :: "jsval \<Rightarrow> employee \<Rightarrow> employee" where
  "merge_update updates e =
     \<lparr>e_id = e_id e,
      e_name = (case map_of (spread updates) ''name'' of
                  None \<Rightarrow> e_name e | Some v \<Rightarrow> trimmed_or v unknown_name),
      e_department = (case map_of (spread updates) ''department'' of
                        None \<Rightarrow> e_department e | Some v \<Rightarrow> trimmed_or v other_department),
      e_role = (case map_of (spread updates) ''role'' of
                  None \<Rightarrow> e_role e | Some v \<Rightarrow> trimmed v),
      e_photo = (case map_of (spread updates) ''photo'' of
                   None \<Rightarrow> e_photo e | Some v \<Rightarrow> trimmed v),
      e_isCheckedIn = (case get updates ''isCheckedIn'' of
                         JBool b \<Rightarrow> b | _ \<Rightarrow> e_isCheckedIn e)\<rparr>"

text \<open>The invariant of the absences: no two of them have the same \<open>employeeId\<close>.\<close>

definition one_absence_per_employee :: "document \<Rightarrow> bool" where
  "one_absence_per_employee d = distinct (map a_employeeId (absences d))"

text \<open>A backing file with one employee and two absences of that employee.\<close>

definition twice_absent_file :: jsval where
  "twice_absent_file =
     JObj [(''employees'', JArr [JObj [(''id'', JStr ''a''), (''name'', JStr ''A'')]]),
           (''absences'',
            JArr [JObj [(''id'', JStr ''x''), (''employeeId'', JStr ''a''),
                        (''from'', JStr ''2024-01-01''), (''to'', JStr ''2024-01-01'')],
                  JObj [(''id'', JStr ''y''), (''employeeId'', JStr ''a''),
                        (''from'', JStr ''2024-02-01''), (''to'', JStr ''2024-02-01'')]])]"

text \<open>
  A document in canonical form: its employees are as the normaliser leaves them, with
  pairwise different identifiers, and each absence has a trimmed identifier that is not
  empty, the identifier of one of the employees, and two dates, not empty, the first
  not later than the second.
\<close>

definition canonical_absence :: "env \<Rightarrow> string set \<Rightarrow> absence \<Rightarrow> bool" where
  "canonical_absence E validIds a =
     (a_id a \<noteq> [] \<and> trim (a_id a) = a_id a \<and>
      a_employeeId a \<noteq> [] \<and> a_employeeId a \<in> validIds \<and>
      a_from a \<noteq> [] \<and> a_to a \<noteq> [] \<and> \<not> date_gt E (a_from a) (a_to a))"

definition canonical_document :: "env \<Rightarrow> document \<Rightarrow> bool" where
  "canonical_document E d =
     (list_all canonical_employee (employees d) \<and>
      distinct (map e_id (employees d)) \<and>
      list_all (canonical_absence E (set (map e_id (employees d)))) (absences d))"

text \<open>A document with a logo and nobody in it, and one with an employee who is absent.\<close>

definition empty_office :: document where
  "empty_office = \<lparr>branding = \<lparr>logo = ''/uploads/branding/logo.png''\<rparr>, employees = [],
                    absences = []\<rparr>"

definition small_office :: document where
  "small_office =
     \<lparr>branding = \<lparr>logo = ''/uploads/branding/logo.png''\<rparr>,
      employees = [seed ''freja-holm'' ''Freja Holm'' ''Design'' [] True,
                   seed ''e2'' ''Jonas Lindholm'' ''Administration'' ''HR-partner'' False],
      absences = [\<lparr>a_id = ''a1'', a_employeeId = ''freja-holm'', a_from = ''2024-01-01'',
                   a_to = ''2024-02-01'', a_reason = ''vacation''\<rparr>]\<rparr>"

text \<open>
  The identifier a raw entry of an employee list carries, as \<open>normaliseEmployee\<close> reads
  it: the trimmed string, if the entry is an object whose \<open>id\<close> is a string that is
  not blank. The entry at a position is a first occurrence when it carries an
  identifier that no entry before it carries.
\<close>

definition raw_id :: "jsval \<Rightarrow> string option" where
  "raw_id v =
     (if truthy v \<and> is_object v
      then (case get v ''id'' of
              JStr s \<Rightarrow> if trim s \<noteq> [] then Some (trim s) else None
            | _ \<Rightarrow> None)
      else None)"

definition first_occurrence :: "jsval list \<Rightarrow> nat \<Rightarrow> bool" where
  "first_occurrence raws i =
     (raw_id (raws ! i) \<noteq> None \<and> raw_id (raws ! i) \<notin> set (map raw_id (take i raws)))"

text \<open>
  The same along the list: with the identifiers \<open>seen\<close> so far, an entry that carries
  a new identifier keeps it, and any other entry has one of the generated identifiers
  \<open>gen\<close>.
\<close>

fun keeps_first :: "string set \<Rightarrow> string set \<Rightarrow> jsval list \<Rightarrow> employee list \<Rightarrow> bool" where
  "keeps_first gen seen [] [] = True"
| "keeps_first gen seen (x # xs) (e # es) =
     ((case raw_id x of
         Some t \<Rightarrow> if t \<in> seen then e_id e \<in> gen else e_id e = t
       | None \<Rightarrow> e_id e \<in> gen) \<and>
      keeps_first gen (seen \<union> set_option (raw_id x)) xs es)"
| "keeps_first gen seen xs es = False"

text \<open>The unfolding rules that evaluate the model on a concrete input.\<close>

lemmas store_defs = addEmployee_def removeEmployee_def updateEmployee_def setEmployeeStatus_def
  addAbsence_def removeAbsence_def setBrandingLogo_def removeBrandingLogo_def
  persist_then_def persist_def id_or_draw_def last_option_def merged_def

lemmas normalise_defs = normaliseEmployee_def normaliseAbsence_def normaliseBranding_def
  normaliseState_def normaliseEmployeeList_def date_gt_def trim_def is_space_def
  unknown_name_def other_department_def employee_json_def absence_json_def document_json_def

lemmas demo_defs = demo_env_def failing_disk_def new_store_def DEFAULT_STATE_def seed_def
  demo_uuid_def demo_date_def

section \<open>Serial execution\<close>

lemma submit_all_sequential:
  "queue s = (Inr (), s1) \<Longrightarrow>
   map (\<lambda>run. fst (run s)) (fst (submit_all E xs queue)) = fst (sequential E xs s1) \<and>
   snd (submit_all E xs queue) s = (Inr (), snd (sequential E xs s1))"
proof (induction xs arbitrary: queue s1)
  case Nil
  then show ?case by simp
next
  case (Cons x xs)
  obtain r s2 where t: "task E x s1 = (r, s2)"
    by (cases "task E x s1")
  have q: "snd (enqueue queue (task E x)) s = (Inr (), s2)"
    using Cons.prems t
    by (cases r) (simp_all add: enqueue_def then_p_def catch_p_def resolve_def)
  have r: "fst (fst (enqueue queue (task E x)) s) = r"
    using Cons.prems t by (simp add: enqueue_def then_p_def)
  from Cons.IH [of "snd (enqueue queue (task E x))" s2, OF q] r t show ?case
    by (simp add: split_def Let_def)
qed

text \<open>
  C1. Operations submitted to the queue of a new store run one at a time in the order
  of submission: the promise each call returns settles with the outcome of its operation
  on the store and file that the operations before it left (the write included), the
  queue settles on the store that applying the operations one after the other gives,
  and an operation that rejects changes neither fact for those behind it.
\<close>

theorem queue_is_sequential:
  "map (\<lambda>run. fst (run s)) (fst (submit_all E xs (resolve ()))) = fst (sequential E xs s) \<and>
   snd (submit_all E xs (resolve ())) s = (Inr (), snd (sequential E xs s))"
  by (rule submit_all_sequential [of "resolve ()" s s E xs]) (simp add: resolve_def)

theorem queue_is_sequential_witness:
  "map (\<lambda>run. fst (run new_store))
     (fst (submit_all demo_env
        [AddEmployee (JObj [(''name'', JStr []), (''role'', JStr [])]),
         RemoveEmployee ''freja-holm''] (resolve ())))
   = [Inl ValidationError,
      Inr (EmployeeResult (seed ''freja-holm'' ''Freja Holm'' ''Design'' ''Lead Designer'' True))] \<and>
   map e_id (employees (state (snd (snd (submit_all demo_env
        [AddEmployee (JObj [(''name'', JStr []), (''role'', JStr [])]),
         RemoveEmployee ''freja-holm''] (resolve ())) new_store))))
   = [''amalie-korvig'', ''jonas-lindholm'', ''mathias-hagen'', ''henrik-nord'', ''sofie-iversen'']"
  using queue_is_sequential [of new_store demo_env
        "[AddEmployee (JObj [(''name'', JStr []), (''role'', JStr [])]),
         RemoveEmployee ''freja-holm'']"]
  by (simp add: store_defs normalise_defs demo_defs)

section \<open>Employees: status and removal\<close>

lemma last_option_None: "last_option xs = None \<longleftrightarrow> xs = []"
  by (cases "rev xs") (auto simp: last_option_def)

lemma last_option_Some: "last_option xs = Some x \<Longrightarrow> x \<in> set xs"
  by (cases "rev xs") (auto simp: last_option_def dest: arg_cong [where f = set])

lemma last_option_filter_None:
  "last_option (filter P xs) = None \<longleftrightarrow> list_all (\<lambda>x. \<not> P x) xs"
  by (simp add: last_option_None filter_empty_conv list_all_iff)

lemma last_option_filter_Some:
  "last_option (filter P xs) = Some x \<Longrightarrow> x \<in> set xs \<and> P x"
  by (drule last_option_Some) simp

lemma last_option_absent:
  "i \<notin> set (map e_id es) \<Longrightarrow> last_option (filter (\<lambda>e. e_id e = i) es) = None"
  by (auto simp: last_option_filter_None list_all_iff)

lemma last_option_present:
  "i \<in> set (map e_id es) \<Longrightarrow>
   \<exists>e. last_option (filter (\<lambda>e. e_id e = i) es) = Some e \<and> e \<in> set es \<and> e_id e = i"
proof -
  assume "i \<in> set (map e_id es)"
  then have "filter (\<lambda>e. e_id e = i) es \<noteq> []"
    by (auto simp: filter_empty_conv)
  then obtain e where e: "last_option (filter (\<lambda>e. e_id e = i) es) = Some e"
    by (cases "last_option (filter (\<lambda>e. e_id e = i) es)") (auto simp: last_option_None)
  with last_option_filter_Some [OF e] show ?thesis by simp
qed

lemma last_option_map: "last_option (map g xs) = map_option g (last_option xs)"
  by (cases "rev xs") (simp_all add: last_option_def rev_map [symmetric])

lemma filter_id_map:
  "(\<And>e. e_id (g e) = e_id e) \<Longrightarrow>
   filter (\<lambda>e. e_id e = i) (map g es) = map g (filter (\<lambda>e. e_id e = i) es)"
  by (induction es) auto

lemma map_unless_absent:
  "i \<notin> set (map e_id es) \<Longrightarrow> map (\<lambda>e. if e_id e \<noteq> i then e else f e) es = es"
  by (induction es) auto

text \<open>
  C7. \<open>removeEmployee\<close> rejects with \<open>NotFoundError\<close> and leaves the store as it
  was when no employee has the identifier. Otherwise the employees with that identifier
  and the absences that refer to it are gone from the document, whatever the write does,
  so that no employee and no absence with the identifier is left; and once the write has
  succeeded the call returns the removed employee and the file holds the new document.
\<close>

theorem removeEmployee_cascade:
  fixes E i s
  defines "r \<equiv> removeEmployee E i s"
  shows
  "(i \<notin> set (map e_id (employees (state s))) \<longrightarrow> r = (Inl NotFoundError, s)) \<and>
   (i \<in> set (map e_id (employees (state s))) \<longrightarrow>
      employees (state (snd r)) = filter (\<lambda>e. e_id e \<noteq> i) (employees (state s)) \<and>
      absences (state (snd r)) = filter (\<lambda>a. a_employeeId a \<noteq> i) (absences (state s)) \<and>
      branding (state (snd r)) = branding (state s) \<and>
      i \<notin> set (map e_id (employees (state (snd r)))) \<and>
      i \<notin> set (map a_employeeId (absences (state (snd r)))) \<and>
      (writeOk E (writes s) \<longrightarrow>
         (\<exists>e \<in> set (employees (state s)). e_id e = i \<and> fst r = Inr e) \<and>
         disk (snd r) = Content (document_json (state (snd r)))))"
proof (cases "last_option (filter (\<lambda>e. e_id e = i) (employees (state s)))")
  case None
  then have "i \<notin> set (map e_id (employees (state s)))"
    by (auto simp: last_option_filter_None list_all_iff)
  with None show ?thesis by (simp add: r_def removeEmployee_def)
next
  case (Some e)
  from last_option_filter_Some [OF Some] have e: "e \<in> set (employees (state s))" "e_id e = i"
    by simp_all
  then have "i \<in> set (map e_id (employees (state s)))" by force
  with Some e show ?thesis
    by (auto simp: r_def removeEmployee_def persist_then_def persist_def)
qed

theorem removeEmployee_cascade_witness:
  "fst (removeEmployee demo_env ''freja-holm'' absent_store) =
     Inr (seed ''freja-holm'' ''Freja Holm'' ''Design'' ''Lead Designer'' True) \<and>
   map a_id (absences (state (snd (removeEmployee demo_env ''freja-holm'' absent_store)))) = [''a2''] \<and>
   removeEmployee demo_env ''nobody'' absent_store = (Inl NotFoundError, absent_store)"
  using removeEmployee_cascade [of "''freja-holm''" absent_store demo_env]
    removeEmployee_cascade [of "''nobody''" absent_store demo_env]
  by (simp add: store_defs demo_defs absent_store_def)

text \<open>
  C10. \<open>setEmployeeStatus\<close> rejects with \<open>NotFoundError\<close> and leaves the store as it
  was when no employee has the identifier. Otherwise it sets \<open>isCheckedIn\<close> of the
  employee with the identifier to the truthiness of its argument and changes no other
  field, no other employee, no absence and not the branding. It returns the updated
  employee only once the write has succeeded, and then the file holds the new document;
  when the write fails it rejects with \<open>PersistenceError\<close> and the file is as it was.
\<close>

theorem setEmployeeStatus_frame:
  fixes E i c s
  defines "r \<equiv> setEmployeeStatus E i c s"
  shows
  "(i \<notin> set (map e_id (employees (state s))) \<longrightarrow> r = (Inl NotFoundError, s)) \<and>
   (i \<in> set (map e_id (employees (state s))) \<longrightarrow>
      employees (state (snd r)) =
        map (\<lambda>e. if e_id e = i then e\<lparr>e_isCheckedIn := truthy c\<rparr> else e) (employees (state s)) \<and>
      absences (state (snd r)) = absences (state s) \<and>
      branding (state (snd r)) = branding (state s) \<and>
      (writeOk E (writes s) \<longrightarrow>
         (\<exists>e \<in> set (employees (state s)).
            e_id e = i \<and> fst r = Inr (e\<lparr>e_isCheckedIn := truthy c\<rparr>)) \<and>
         disk (snd r) = Content (document_json (state (snd r)))) \<and>
      (\<not> writeOk E (writes s) \<longrightarrow>
         fst r = Inl PersistenceError \<and> disk (snd r) = disk s))"
proof (cases "i \<in> set (map e_id (employees (state s)))")
  case False
  then show ?thesis
    by (simp add: r_def setEmployeeStatus_def map_unless_absent last_option_absent)
next
  case True
  let ?es = "map (\<lambda>e. if e_id e \<noteq> i then e else e\<lparr>e_isCheckedIn := truthy c\<rparr>) (employees (state s))"
  have swap: "?es = map (\<lambda>e. if e_id e = i then e\<lparr>e_isCheckedIn := truthy c\<rparr> else e) (employees (state s))"
    by (rule map_cong) auto
  from last_option_present [OF True] obtain e where
    e: "last_option (filter (\<lambda>e. e_id e = i) (employees (state s))) = Some e"
       "e \<in> set (employees (state s))" "e_id e = i"
    by blast
  have u: "last_option (filter (\<lambda>e. e_id e = i) ?es) = Some (e\<lparr>e_isCheckedIn := truthy c\<rparr>)"
    using e by (simp add: filter_id_map last_option_map)
  have r: "r = persist_then E (s\<lparr>state := (state s)\<lparr>employees := ?es\<rparr>\<rparr>)
                 (e\<lparr>e_isCheckedIn := truthy c\<rparr>)"
    using u by (simp add: r_def setEmployeeStatus_def Let_def)
  have ex: "\<exists>e' \<in> set (employees (state s)).
              e_id e' = i \<and> e\<lparr>e_isCheckedIn := truthy c\<rparr> = e'\<lparr>e_isCheckedIn := truthy c\<rparr>"
    using e by blast
  show ?thesis
    unfolding r using True ex swap by (simp add: persist_then_def persist_def)
qed

theorem setEmployeeStatus_frame_witness:
  "fst (setEmployeeStatus demo_env ''jonas-lindholm'' (JNum 1) new_store) =
     Inr (seed ''jonas-lindholm'' ''Jonas Lindholm'' ''Administration'' ''HR-partner'' True) \<and>
   map e_isCheckedIn (employees (state (snd (setEmployeeStatus demo_env ''jonas-lindholm'' (JNum 1) new_store))))
     = [True, True, True, False, True, False] \<and>
   setEmployeeStatus demo_env ''nobody'' (JBool True) new_store = (Inl NotFoundError, new_store) \<and>
   fst (setEmployeeStatus failing_disk ''jonas-lindholm'' (JNum 1) new_store) = Inl PersistenceError \<and>
   disk (snd (setEmployeeStatus failing_disk ''jonas-lindholm'' (JNum 1) new_store)) = Missing"
  using setEmployeeStatus_frame [of "''jonas-lindholm''" new_store demo_env "JNum 1"]
    setEmployeeStatus_frame [of "''nobody''" new_store demo_env "JBool True"]
    setEmployeeStatus_frame [of "''jonas-lindholm''" new_store failing_disk "JNum 1"]
  by (simp add: store_defs demo_defs)

section \<open>Adding an employee\<close>

lemma trim_Nil [simp]: "trim [] = []"
  by (simp add: trim_def)

text \<open>
  C3. The code accepts \<^verbatim>\<open>addEmployee({name: "", role: "X"})\<close>: the normaliser has
  replaced the empty name by the fallback name before the test for an empty name is
  made, so the call never rejects with \<open>ValidationError\<close>; it appends an employee named
  \<open>unknown_name\<close> and returns it when the write succeeds.
\<close>

theorem addEmployee_empty_name_accepted:
  fixes E s
  defines "r \<equiv> addEmployee E (JObj [(''name'', JStr []), (''role'', JStr ''X'')]) s"
  shows
  "\<exists>e. e_name e = unknown_name \<and> e_role e = ''X'' \<and>
       employees (state (snd r)) = employees (state s) @ [e] \<and>
       fst r = (if writeOk E (writes s) then Inr e else Inl PersistenceError)"
  by (simp add: r_def addEmployee_def id_or_draw_def normaliseEmployee_def persist_then_def
      persist_def trim_def is_space_def unknown_name_def)

theorem addEmployee_empty_name_accepted_witness:
  "fst (addEmployee demo_env (JObj [(''name'', JStr []), (''role'', JStr ''X'')]) new_store) =
     Inr \<lparr>e_id = ''uuid-'', e_name = ''Ukendt medarbejder'', e_department = other_department,
          e_role = ''X'', e_photo = [], e_isCheckedIn = False\<rparr>"
  using addEmployee_empty_name_accepted [of demo_env new_store]
  by (simp add: store_defs normalise_defs demo_defs)

text \<open>
  With a name and a role, \<^verbatim>\<open>addEmployee({name: "A", role: "B"})\<close> appends an
  employee that is not checked in and carries a drawn identifier, and returns it when
  the write succeeds.
\<close>

lemma addEmployee_A_B:
  fixes E s
  defines "r \<equiv> addEmployee E (JObj [(''name'', JStr ''A''), (''role'', JStr ''B'')]) s"
    and "u \<equiv> randomUUID E (uuids s)"
  defines "e \<equiv> \<lparr>e_id = (if trim u \<noteq> [] then trim u else randomUUID E (Suc (uuids s))),
                  e_name = ''A'', e_department = other_department, e_role = ''B'',
                  e_photo = [], e_isCheckedIn = False\<rparr>"
  shows "employees (getState (snd r)) = employees (state s) @ [e] \<and>
         fst r = (if writeOk E (writes s) then Inr e else Inl PersistenceError)"
proof -
  have t: "trim ''A'' = ''A''" "trim ''B'' = ''B''"
    by (simp_all add: trim_def is_space_def)
  show ?thesis
    by (simp add: r_def u_def e_def addEmployee_def id_or_draw_def normaliseEmployee_def
        persist_then_def persist_def getState_def t)
qed

section \<open>A write that fails\<close>

text \<open>What an operation computes before the write does not depend on the disk.\<close>

lemma id_or_uuid_writeOk [simp]: "id_or_uuid (E\<lparr>writeOk := f\<rparr>) v k = id_or_uuid E v k"
  by (cases v) simp_all

lemma normaliseEmployee_writeOk [simp]:
  "normaliseEmployee (E\<lparr>writeOk := f\<rparr>) v k = normaliseEmployee E v k"
  by (simp add: normaliseEmployee_def)

lemma date_gt_writeOk [simp]: "date_gt (E\<lparr>writeOk := f\<rparr>) a b = date_gt E a b"
  by (simp add: date_gt_def split: option.split)

lemma normaliseAbsence_writeOk [simp]:
  "normaliseAbsence (E\<lparr>writeOk := f\<rparr>) v V k = normaliseAbsence E v V k"
  by (simp add: normaliseAbsence_def split: jsval.split)

lemma id_or_draw_writeOk [simp]: "id_or_draw (E\<lparr>writeOk := f\<rparr>) v k = id_or_draw E v k"
  by (simp add: id_or_draw_def)

lemma updateEmployee_map_writeOk [simp]:
  "updateEmployee_map (E\<lparr>writeOk := f\<rparr>) i u es upd k = updateEmployee_map E i u es upd k"
  by (induction es arbitrary: upd k) (simp_all add: split_def)

lemma persist_then_fails:
  "\<not> writeOk E (writes s) \<Longrightarrow>
   persist_then E s v = (Inl PersistenceError, s\<lparr>writes := Suc (writes s)\<rparr>)"
  by (simp add: persist_then_def persist_def)

lemma persist_then_succeeds:
  "writeOk E (writes s) \<Longrightarrow>
   persist_then E s v =
     (Inr v, s\<lparr>disk := Content (document_json (state s)), writes := Suc (writes s)\<rparr>)"
  by (simp add: persist_then_def persist_def)

text \<open>
  C2, as the code has it. When the write of an operation fails, the operation rejects:
  with \<open>PersistenceError\<close> if it would have succeeded, with its own error if it
  rejects before the write. The document in memory is not put back: it is the document
  the operation leaves when its write succeeds.
\<close>

theorem failed_write_keeps_mutation:
  fixes E x s
  defines "r \<equiv> task E x s"
    and "r' \<equiv> task (E\<lparr>writeOk := (\<lambda>n. True)\<rparr>) x s"
  assumes fails: "\<not> writeOk E (writes s)"
  shows "getState (snd r) = getState (snd r') \<and>
         fst r = (case fst r' of Inl e \<Rightarrow> Inl e | Inr v \<Rightarrow> Inl PersistenceError)"
proof (cases x)
  case (SetBrandingLogo p)
  with fails show ?thesis
    by (simp add: r_def r'_def setBrandingLogo_def Let_def persist_then_fails
        persist_then_succeeds getState_def)
next
  case RemoveBrandingLogo
  with fails show ?thesis
    by (simp add: r_def r'_def removeBrandingLogo_def Let_def persist_then_fails
        persist_then_succeeds getState_def)
next
  case (AddEmployee p)
  with fails show ?thesis
    by (simp add: r_def r'_def addEmployee_def Let_def split_def persist_then_fails
        persist_then_succeeds getState_def)
next
  case (UpdateEmployee i u)
  with fails show ?thesis
    by (simp add: r_def r'_def updateEmployee_def Let_def split_def persist_then_fails
        persist_then_succeeds getState_def split: option.split)
next
  case (RemoveEmployee i)
  with fails show ?thesis
    by (simp add: r_def r'_def removeEmployee_def persist_then_fails
        persist_then_succeeds getState_def split: option.split)
next
  case (SetEmployeeStatus i c)
  with fails show ?thesis
    by (simp add: r_def r'_def setEmployeeStatus_def Let_def persist_then_fails
        persist_then_succeeds getState_def split: option.split)
next
  case (AddAbsence p)
  with fails show ?thesis
    by (simp add: r_def r'_def addAbsence_def Let_def split_def persist_then_fails
        persist_then_succeeds getState_def split: option.split)
next
  case (RemoveAbsence i)
  with fails show ?thesis
    by (simp add: r_def r'_def removeAbsence_def persist_then_fails
        persist_then_succeeds getState_def split: option.split)
qed

theorem failed_write_keeps_mutation_witness:
  "\<not> writeOk failing_disk (writes new_store) \<and>
   fst (task failing_disk (AddEmployee (JObj [(''name'', JStr ''A''), (''role'', JStr ''B'')])) new_store)
     = Inl PersistenceError \<and>
   map e_id (employees (getState (snd (task failing_disk
       (AddEmployee (JObj [(''name'', JStr ''A''), (''role'', JStr ''B'')])) new_store))))
     = [''amalie-korvig'', ''jonas-lindholm'', ''freja-holm'', ''mathias-hagen'', ''henrik-nord'',
        ''sofie-iversen'', ''uuid-'']"
  using failed_write_keeps_mutation [of failing_disk new_store
      "AddEmployee (JObj [(''name'', JStr ''A''), (''role'', JStr ''B'')])"]
  by (simp add: store_defs normalise_defs demo_defs getState_def)

text \<open>
  C2 as the spec states it fails: after \<^verbatim>\<open>addEmployee({name: "A", role: "B"})\<close> has
  rejected with \<open>PersistenceError\<close>, \<open>getState\<close> shows the new employee.
\<close>

theorem failed_write_rollback_counterexample:
  "fst (addEmployee failing_disk (JObj [(''name'', JStr ''A''), (''role'', JStr ''B'')]) new_store)
     = Inl PersistenceError \<and>
   getState (snd (addEmployee failing_disk (JObj [(''name'', JStr ''A''), (''role'', JStr ''B'')])
     new_store)) \<noteq> getState new_store"
  by (simp add: store_defs normalise_defs demo_defs getState_def)

section \<open>Adding an absence\<close>

lemma normaliseAbsence_unchecked:
  "normaliseAbsence E obj None k =
     (if truthy obj \<and> is_object obj \<and> absence_fields_valid E obj
      then (Some \<lparr>a_id = fst (id_or_uuid E (get obj ''id'') k),
                  a_employeeId = the_string (get obj ''employeeId''),
                  a_from = the_string (get obj ''from''),
                  a_to = the_string (get obj ''to''),
                  a_reason = (case get obj ''reason'' of JStr r \<Rightarrow> r | _ \<Rightarrow> ''other'')\<rparr>,
            snd (id_or_uuid E (get obj ''id'') k))
      else (None, k))"
proof (cases "get obj ''employeeId''")
  case e: (JStr employeeId)
  show ?thesis
  proof (cases "get obj ''from''")
    case f: (JStr fr)
    show ?thesis
      by (cases "get obj ''to''")
        (simp_all add: e f normaliseAbsence_def absence_fields_valid_def nonempty_string_def
          the_string_def)
  qed (simp_all add: e normaliseAbsence_def absence_fields_valid_def nonempty_string_def)
qed (simp_all add: normaliseAbsence_def absence_fields_valid_def nonempty_string_def)

text \<open>
  C4, as the code has it. \<open>addAbsence\<close> rejects with \<open>ValidationError\<close>, leaving document
  and file as they were, when \<open>employeeId\<close>, \<open>from\<close> or \<open>to\<close> is missing, not a string
  or empty, or when the date of \<open>from\<close> is later than the date of \<open>to\<close>. Otherwise it
  replaces the absences of that \<open>employeeId\<close> by the new one, appended last, and returns
  it when the write succeeds. Whether an employee has that identifier is not looked at.
\<close>

theorem addAbsence_validation:
  fixes E payload s
  defines "r \<equiv> addAbsence E payload s"
  assumes "\<not> nullish payload"
  shows
  "(\<not> absence_fields_valid E payload \<longrightarrow>
      fst r = Inl ValidationError \<and> getState (snd r) = getState s \<and> disk (snd r) = disk s) \<and>
   (absence_fields_valid E payload \<longrightarrow>
      (\<exists>a. a_employeeId a = the_string (get payload ''employeeId'') \<and>
           a_from a = the_string (get payload ''from'') \<and>
           a_to a = the_string (get payload ''to'') \<and>
           a_reason a = (case get payload ''reason'' of JStr t \<Rightarrow> t | _ \<Rightarrow> ''other'') \<and>
           absences (getState (snd r)) =
             filter (\<lambda>entry. a_employeeId entry \<noteq> a_employeeId a) (absences (getState s)) @ [a] \<and>
           employees (getState (snd r)) = employees (getState s) \<and>
           fst r = (if writeOk E (writes s) then Inr a else Inl PersistenceError)))"
proof -
  let ?obj = "JObj [(''id'', fst (id_or_draw E payload (uuids s))),
                    (''employeeId'', get payload ''employeeId''),
                    (''from'', get payload ''from''), (''to'', get payload ''to''),
                    (''reason'', get payload ''reason'')]"
  have v: "absence_fields_valid E ?obj = absence_fields_valid E payload"
    by (simp add: absence_fields_valid_def)
  show ?thesis
    using assms(2)
    by (simp add: r_def addAbsence_def split_def Let_def normaliseAbsence_unchecked v
        persist_then_def persist_def getState_def)
qed

theorem addAbsence_validation_witness:
  "fst (addAbsence demo_env
      (JObj [(''employeeId'', JStr ''freja-holm''), (''from'', JStr ''2024-02-01''),
             (''to'', JStr ''2024-01-01'')]) new_store) = Inl ValidationError \<and>
   fst (addAbsence demo_env
      (JObj [(''employeeId'', JStr ''freja-holm''), (''from'', JStr ''2024-01-01''),
             (''to'', JStr ''2024-02-01'')]) absent_store) =
     Inr \<lparr>a_id = ''uuid-'', a_employeeId = ''freja-holm'', a_from = ''2024-01-01'',
          a_to = ''2024-02-01'', a_reason = ''other''\<rparr> \<and>
   map a_id (absences (getState (snd (addAbsence demo_env
      (JObj [(''employeeId'', JStr ''freja-holm''), (''from'', JStr ''2024-01-01''),
             (''to'', JStr ''2024-02-01'')]) absent_store)))) = [''a2'', ''uuid-'']"
  using addAbsence_validation [of
      "JObj [(''employeeId'', JStr ''freja-holm''), (''from'', JStr ''2024-02-01''),
             (''to'', JStr ''2024-01-01'')]" demo_env new_store]
    addAbsence_validation [of
      "JObj [(''employeeId'', JStr ''freja-holm''), (''from'', JStr ''2024-01-01''),
             (''to'', JStr ''2024-02-01'')]" demo_env absent_store]
  by (simp add: store_defs normalise_defs demo_defs absent_store_def getState_def)

text \<open>
  C4 as the spec states it fails: no employee of the default document has the identifier
  \<^verbatim>\<open>ghost\<close>, and \<open>addAbsence\<close> records an absence for it.
\<close>

theorem addAbsence_unknown_employee_counterexample:
  "''ghost'' \<notin> set (map e_id (employees (getState new_store))) \<and>
   fst (addAbsence demo_env
      (JObj [(''employeeId'', JStr ''ghost''), (''from'', JStr ''2024-01-01''),
             (''to'', JStr ''2024-02-01'')]) new_store) =
     Inr \<lparr>a_id = ''uuid-'', a_employeeId = ''ghost'', a_from = ''2024-01-01'',
          a_to = ''2024-02-01'', a_reason = ''other''\<rparr> \<and>
   map a_employeeId (absences (getState (snd (addAbsence demo_env
      (JObj [(''employeeId'', JStr ''ghost''), (''from'', JStr ''2024-01-01''),
             (''to'', JStr ''2024-02-01'')]) new_store)))) = [''ghost'']"
  by (simp add: store_defs normalise_defs demo_defs getState_def)

section \<open>Updating an employee\<close>

lemma last_option_Cons:
  "last_option (x # xs) = (case last_option xs of None \<Rightarrow> Some x | Some y \<Rightarrow> Some y)"
  by (cases "rev xs") (simp_all add: last_option_def)

lemma get_merged:
  "k \<noteq> ''id'' \<Longrightarrow> k \<noteq> ''isCheckedIn'' \<Longrightarrow>
   get (merged e updates) k =
     (case map_of (spread updates) k of
        None \<Rightarrow> get (JObj (employee_json e)) k
      | Some v \<Rightarrow> v)"
  by (simp add: merged_def map_add_def split: option.split)

lemma normaliseEmployee_merged:
  assumes "canonical_employee e"
  shows "normaliseEmployee E (merged e updates) k = (merge_update updates e, k)"
proof -
  have i: "get (merged e updates) ''id'' = JStr (e_id e)"
    and c: "get (merged e updates) ''isCheckedIn'' =
              JBool (case get updates ''isCheckedIn'' of JBool b \<Rightarrow> b | _ \<Rightarrow> e_isCheckedIn e)"
    by (simp_all add: merged_def)
  have o: "truthy (merged e updates)" "is_object (merged e updates)"
    by (simp_all add: merged_def)
  show ?thesis
    using assms
    by (simp add: normaliseEmployee_def o i c get_merged merge_update_def canonical_employee_def
        employee_json_def split: option.split)
qed

lemma updateEmployee_map_canonical:
  "list_all canonical_employee es \<Longrightarrow>
   updateEmployee_map E i updates es upd k =
     (map (\<lambda>e. if e_id e = i then merge_update updates e else e) es,
      (case last_option (filter (\<lambda>e. e_id e = i) es) of
         None \<Rightarrow> upd
       | Some e \<Rightarrow> Some (merge_update updates e)),
      k)"
proof (induction es arbitrary: upd)
  case Nil
  then show ?case by (simp add: last_option_def)
next
  case (Cons e es)
  then show ?case
    by (simp add: normaliseEmployee_merged last_option_Cons split: option.split)
qed

text \<open>
  C5, as the code has it. On a document of normalised employees, \<open>updateEmployee\<close>
  rejects with \<open>NotFoundError\<close> and changes nothing when no employee has the
  identifier. Otherwise it replaces the employee by the merge of the partial over it,
  normalised again: a name that is blank becomes the fallback name and a role may
  become empty. It never rejects with \<open>ValidationError\<close>, and returns the new record
  when the write succeeds.
\<close>

theorem updateEmployee_merges:
  fixes E i updates s
  defines "r \<equiv> updateEmployee E i updates s"
  assumes "list_all canonical_employee (employees (state s))"
  shows
  "(i \<notin> set (map e_id (employees (state s))) \<longrightarrow>
      fst r = Inl NotFoundError \<and> getState (snd r) = getState s \<and> disk (snd r) = disk s) \<and>
   (i \<in> set (map e_id (employees (state s))) \<and> \<not> nullish updates \<longrightarrow>
      employees (getState (snd r)) =
        map (\<lambda>e. if e_id e = i then merge_update updates e else e) (employees (state s)) \<and>
      absences (getState (snd r)) = absences (state s) \<and>
      branding (getState (snd r)) = branding (state s) \<and>
      (\<exists>e \<in> set (employees (state s)). e_id e = i \<and>
         fst r = (if writeOk E (writes s) then Inr (merge_update updates e)
                  else Inl PersistenceError)))"
proof (cases "i \<in> set (map e_id (employees (state s)))")
  case False
  then have "map (\<lambda>e. if e_id e = i then merge_update updates e else e) (employees (state s))
             = employees (state s)"
    by (intro map_idI) auto
  with False assms(2) show ?thesis
    by (simp add: r_def updateEmployee_def updateEmployee_map_canonical last_option_absent
        getState_def)
next
  case found: True
  show ?thesis
  proof (cases "nullish updates")
    case True
    with found show ?thesis by simp
  next
    case False
    from last_option_present [OF found] obtain e where
      e: "last_option (filter (\<lambda>e. e_id e = i) (employees (state s))) = Some e"
         "e \<in> set (employees (state s))" "e_id e = i"
      by blast
    have r: "r = persist_then E
                 (s\<lparr>state := (state s)\<lparr>employees :=
                      map (\<lambda>e. if e_id e = i then merge_update updates e else e)
                        (employees (state s))\<rparr>\<rparr>)
                 (merge_update updates e)"
      using False assms(2) e(1)
      by (simp add: r_def updateEmployee_def updateEmployee_map_canonical Let_def)
    show ?thesis
    proof (cases "writeOk E (writes s)")
      case True
      with e(2,3) show ?thesis
        unfolding r by (auto simp: persist_then_succeeds getState_def)
    next
      case False
      with e(2,3) show ?thesis
        unfolding r by (auto simp: persist_then_fails getState_def)
    qed
  qed
qed

theorem updateEmployee_merges_witness:
  "list_all canonical_employee (employees (state new_store)) \<and>
   fst (updateEmployee demo_env ''freja-holm''
         (JObj [(''name'', JStr ''  Freja H ''), (''isCheckedIn'', JNum 0)]) new_store) =
     Inr \<lparr>e_id = ''freja-holm'', e_name = ''Freja H'', e_department = ''Design'',
          e_role = ''Lead Designer'', e_photo = [], e_isCheckedIn = True\<rparr> \<and>
   fst (updateEmployee demo_env ''nobody'' (JObj [(''name'', JStr ''N'')]) new_store) =
     Inl NotFoundError"
proof -
  have c: "list_all canonical_employee (employees (state new_store))"
    by (simp add: canonical_employee_def demo_defs trim_def is_space_def)
  show ?thesis
    using c updateEmployee_merges [OF c, where i = "''freja-holm''" and E = demo_env
        and updates = "JObj [(''name'', JStr ''  Freja H ''), (''isCheckedIn'', JNum 0)]"]
      updateEmployee_merges [OF c, where i = "''nobody''" and E = demo_env
        and updates = "JObj [(''name'', JStr ''N'')]"]
    by (simp add: store_defs normalise_defs demo_defs)
qed

text \<open>
  C5 as the spec states it fails: an update of the role to the empty string succeeds,
  and the record it returns has an empty role.
\<close>

theorem updateEmployee_empty_role_counterexample:
  "fst (updateEmployee demo_env ''freja-holm'' (JObj [(''role'', JStr [])]) new_store) =
     Inr \<lparr>e_id = ''freja-holm'', e_name = ''Freja Holm'', e_department = ''Design'',
          e_role = [], e_photo = [], e_isCheckedIn = True\<rparr>"
  by (simp add: store_defs normalise_defs demo_defs)

section \<open>One absence per employee\<close>

lemma distinct_superseded:
  "distinct (map f xs) \<Longrightarrow> distinct (map f (filter (\<lambda>x. f x \<noteq> f a) xs @ [a]))"
  by (auto simp: distinct_map_filter)

lemma addAbsence_Inr:
  "addAbsence E p s = (Inr a, s') \<Longrightarrow>
   absences (state s') =
     filter (\<lambda>entry. a_employeeId entry \<noteq> a_employeeId a) (absences (state s)) @ [a]"
  by (auto simp: addAbsence_def split_def Let_def persist_then_def persist_def
      split: if_splits option.splits)

lemma task_one_absence:
  assumes "one_absence_per_employee (state s)"
  shows "one_absence_per_employee (state (snd (task E x s)))"
proof (cases x)
  case (SetBrandingLogo p)
  with assms show ?thesis
    by (simp add: one_absence_per_employee_def setBrandingLogo_def Let_def persist_then_def
        persist_def)
next
  case RemoveBrandingLogo
  with assms show ?thesis
    by (simp add: one_absence_per_employee_def removeBrandingLogo_def Let_def persist_then_def
        persist_def)
next
  case (AddEmployee p)
  with assms show ?thesis
    by (simp add: one_absence_per_employee_def addEmployee_def Let_def split_def
        persist_then_def persist_def)
next
  case (UpdateEmployee i u)
  with assms show ?thesis
    by (simp add: one_absence_per_employee_def updateEmployee_def Let_def split_def
        persist_then_def persist_def split: option.split)
next
  case (RemoveEmployee i)
  with assms show ?thesis
    by (simp add: one_absence_per_employee_def removeEmployee_def persist_then_def
        persist_def distinct_map_filter split: option.split)
next
  case (SetEmployeeStatus i c)
  with assms show ?thesis
    by (simp add: one_absence_per_employee_def setEmployeeStatus_def Let_def persist_then_def
        persist_def split: option.split)
next
  case (AddAbsence p)
  with assms show ?thesis
    by (auto simp: one_absence_per_employee_def addAbsence_def Let_def split_def
        persist_then_def persist_def distinct_map_filter split: option.split)
next
  case (RemoveAbsence i)
  with assms show ?thesis
    by (simp add: one_absence_per_employee_def removeAbsence_def persist_then_def
        persist_def distinct_map_filter split: option.split)
qed

lemma sequential_one_absence:
  "one_absence_per_employee (state s) \<Longrightarrow>
   one_absence_per_employee (state (snd (sequential E xs s)))"
proof (induction xs arbitrary: s)
  case Nil
  then show ?case by simp
next
  case (Cons x xs)
  from Cons.IH [OF task_one_absence [OF Cons.prems, of E x]] show ?case
    by (simp add: split_def Let_def)
qed

text \<open>
  C8, as the code has it. Every operation keeps the invariant that no two absences have
  the same \<open>employeeId\<close>: it holds in the default document, and in every document
  that operations reach from a document in which it holds. After two calls of
  \<open>addAbsence\<close> for one employee that both succeed, the second absence is the only one
  of that employee.
\<close>

theorem one_absence_per_employee_kept:
  "one_absence_per_employee DEFAULT_STATE \<and>
   (one_absence_per_employee (getState s) \<longrightarrow>
      one_absence_per_employee (getState (snd (sequential E xs s)))) \<and>
   (addAbsence E p1 s = (Inr a1, s1) \<and> addAbsence E p2 s1 = (Inr a2, s2) \<and>
    a_employeeId a1 = a_employeeId a2 \<longrightarrow>
      filter (\<lambda>entry. a_employeeId entry = a_employeeId a1) (absences (getState s2)) = [a2])"
proof (intro conjI impI)
  show "one_absence_per_employee DEFAULT_STATE"
    by (simp add: one_absence_per_employee_def DEFAULT_STATE_def)
next
  assume "one_absence_per_employee (getState s)"
  then show "one_absence_per_employee (getState (snd (sequential E xs s)))"
    by (simp add: getState_def sequential_one_absence)
next
  assume a: "addAbsence E p1 s = (Inr a1, s1) \<and> addAbsence E p2 s1 = (Inr a2, s2) \<and>
    a_employeeId a1 = a_employeeId a2"
  then have "addAbsence E p2 s1 = (Inr a2, s2)"
    by simp
  then have "absences (state s2) =
      filter (\<lambda>entry. a_employeeId entry \<noteq> a_employeeId a2) (absences (state s1)) @ [a2]"
    by (rule addAbsence_Inr)
  with a show "filter (\<lambda>entry. a_employeeId entry = a_employeeId a1) (absences (getState s2)) = [a2]"
    by (simp add: getState_def filter_empty_conv)
qed

theorem one_absence_per_employee_kept_witness:
  "one_absence_per_employee (getState new_store) \<and>
   one_absence_per_employee (getState (snd (sequential demo_env
      [AddAbsence (JObj [(''employeeId'', JStr ''freja-holm''), (''from'', JStr ''2024-01-01''),
                         (''to'', JStr ''2024-01-01'')]),
       AddAbsence (JObj [(''employeeId'', JStr ''freja-holm''), (''from'', JStr ''2024-02-01''),
                         (''to'', JStr ''2024-02-01'')])] new_store))) \<and>
   absences (getState (snd (addAbsence demo_env
       (JObj [(''employeeId'', JStr ''freja-holm''), (''from'', JStr ''2024-02-01''),
              (''to'', JStr ''2024-02-01'')])
       (snd (addAbsence demo_env
          (JObj [(''employeeId'', JStr ''freja-holm''), (''from'', JStr ''2024-01-01''),
                 (''to'', JStr ''2024-01-01'')]) new_store))))) =
     [\<lparr>a_id = ''uuid-0'', a_employeeId = ''freja-holm'', a_from = ''2024-02-01'',
       a_to = ''2024-02-01'', a_reason = ''other''\<rparr>]"
  using one_absence_per_employee_kept [of new_store demo_env
      "[AddAbsence (JObj [(''employeeId'', JStr ''freja-holm''), (''from'', JStr ''2024-01-01''),
                         (''to'', JStr ''2024-01-01'')]),
       AddAbsence (JObj [(''employeeId'', JStr ''freja-holm''), (''from'', JStr ''2024-02-01''),
                         (''to'', JStr ''2024-02-01'')])]"
      "JObj [(''employeeId'', JStr ''freja-holm''), (''from'', JStr ''2024-01-01''),
             (''to'', JStr ''2024-01-01'')]"
      "\<lparr>a_id = ''uuid-'', a_employeeId = ''freja-holm'', a_from = ''2024-01-01'',
        a_to = ''2024-01-01'', a_reason = ''other''\<rparr>"
      "snd (addAbsence demo_env
          (JObj [(''employeeId'', JStr ''freja-holm''), (''from'', JStr ''2024-01-01''),
                 (''to'', JStr ''2024-01-01'')]) new_store)"
      "JObj [(''employeeId'', JStr ''freja-holm''), (''from'', JStr ''2024-02-01''),
             (''to'', JStr ''2024-02-01'')]"
      "\<lparr>a_id = ''uuid-0'', a_employeeId = ''freja-holm'', a_from = ''2024-02-01'',
        a_to = ''2024-02-01'', a_reason = ''other''\<rparr>"
      "snd (addAbsence demo_env
       (JObj [(''employeeId'', JStr ''freja-holm''), (''from'', JStr ''2024-02-01''),
              (''to'', JStr ''2024-02-01'')])
       (snd (addAbsence demo_env
          (JObj [(''employeeId'', JStr ''freja-holm''), (''from'', JStr ''2024-01-01''),
                 (''to'', JStr ''2024-01-01'')]) new_store)))"]
  by (simp add: store_defs normalise_defs demo_defs getState_def one_absence_per_employee_def)

text \<open>
  C8 as the spec states it fails: the normaliser keeps both absences of one employee
  that a backing file holds, so the document a store starts from need not satisfy the
  invariant.
\<close>

theorem normalised_state_two_absences_counterexample:
  "\<exists>s. init demo_env (new_store\<lparr>disk := Content twice_absent_file\<rparr>) = Some (Inr (), s) \<and>
       map a_employeeId (absences (getState s)) = [''a'', ''a''] \<and>
       \<not> one_absence_per_employee (getState s)"
  by (simp add: init_def twice_absent_file_def normalise_defs demo_defs fresh_candidate.simps
      one_absence_per_employee_def getState_def)

section \<open>Saving and loading\<close>

lemma normaliseEmployee_json:
  "canonical_employee e \<Longrightarrow> normaliseEmployee E (JObj (employee_json e)) k = (e, k)"
  by (simp add: normaliseEmployee_def employee_json_def canonical_employee_def)

lemma fresh_candidate_free:
  "candidate \<notin> taken \<Longrightarrow> fresh_candidate E taken candidate k = Some (candidate, k)"
  by (simp add: fresh_candidate.simps)

lemma normaliseEmployeeList_from_json:
  "list_all canonical_employee es \<Longrightarrow> distinct (map e_id es) \<Longrightarrow>
   set (map e_id es) \<inter> taken = {} \<Longrightarrow>
   normaliseEmployeeList_from E taken (map (\<lambda>e. JObj (employee_json e)) es) k = Some (es, k)"
proof (induction es arbitrary: taken)
  case Nil
  then show ?case by simp
next
  case (Cons e es)
  from Cons.prems have c: "canonical_employee e" and f: "e_id e \<notin> taken"
    and t: "set (map e_id es) \<inter> insert (e_id e) taken = {}"
    by auto
  from Cons.prems have "list_all canonical_employee es" "distinct (map e_id es)"
    by simp_all
  from Cons.IH [OF this t] c f show ?case
    by (simp add: normaliseEmployee_json fresh_candidate_free canonical_employee_def)
qed

lemma normaliseAbsence_json:
  "canonical_absence E V a \<Longrightarrow> normaliseAbsence E (JObj (absence_json a)) (Some V) k = (Some a, k)"
  by (simp add: normaliseAbsence_def absence_json_def canonical_absence_def)

lemma normaliseAbsenceList_json:
  "list_all (canonical_absence E V) as \<Longrightarrow>
   normaliseAbsenceList E (map (\<lambda>a. JObj (absence_json a)) as) V k = (as, k)"
  by (induction as) (simp_all add: normaliseAbsence_json)

lemma normaliseState_json:
  assumes "canonical_document E d" and "employees d \<noteq> []"
  shows "normaliseState E (document_json d) k = Some (d, k)"
proof -
  from assms(2) obtain e es where es: "employees d = e # es"
    by (cases "employees d") auto
  have l: "normaliseEmployeeList E (map (\<lambda>e. JObj (employee_json e)) (employees d)) k
           = Some (employees d, k)"
    using assms(1)
    by (simp add: normaliseEmployeeList_def canonical_document_def
        normaliseEmployeeList_from_json del: normaliseEmployeeList_from.simps)
  have a: "normaliseAbsenceList E (map (\<lambda>a. JObj (absence_json a)) (absences d))
             (set (map e_id (employees d))) k = (absences d, k)"
    using assms(1) by (simp add: canonical_document_def normaliseAbsenceList_json)
  have g: "get (document_json d) ''employees''
             = JArr (JObj (employee_json e) # map (\<lambda>e. JObj (employee_json e)) es)"
    "get (document_json d) ''absences'' = JArr (map (\<lambda>a. JObj (absence_json a)) (absences d))"
    "get (document_json d) ''branding'' = JObj [(''logo'', JStr (logo (branding d)))]"
    "truthy (document_json d)" "is_object (document_json d)"
    by (simp_all add: document_json_def es)
  from l have l': "normaliseEmployeeList E
      (JObj (employee_json e) # map (\<lambda>e. JObj (employee_json e)) es) k = Some (e # es, k)"
    by (simp add: es)
  from a have a': "normaliseAbsenceList E (map (\<lambda>a. JObj (absence_json a)) (absences d))
             (e_id ` set (employees d)) k = (absences d, k)"
    by simp
  show ?thesis
    by (simp add: normaliseState_def g l' a' normaliseBranding_def es [symmetric])
qed

lemma normaliseState_json_empty:
  assumes "canonical_document E d" and "employees d = []"
  shows "normaliseState E (document_json d) k =
           Some (d\<lparr>employees := employees DEFAULT_STATE\<rparr>, k)"
proof -
  from assms have a: "absences d = []"
    by (cases "absences d") (simp_all add: canonical_document_def canonical_absence_def)
  show ?thesis
    by (simp add: normaliseState_def document_json_def normaliseBranding_def assms(2) a)
qed

text \<open>
  C6, as the code has it. A store saves a canonical document and a store that holds
  any document loads the file. If the saved document has at least one employee, the
  loaded document is the saved one; if it has none, the loaded document is the saved
  one with the default employees in their place. No identifier is drawn.
\<close>

theorem save_load_roundtrip:
  assumes "canonical_document E d" and "writeOk E (writes s)"
  shows "\<exists>s'. init E (t\<lparr>disk := disk (snd (persist E (s\<lparr>state := d\<rparr>)))\<rparr>) = Some (Inr (), s') \<and>
              getState s' = (if employees d = [] then d\<lparr>employees := employees DEFAULT_STATE\<rparr>
                             else d) \<and>
              uuids s' = uuids t"
proof (cases "employees d = []")
  case True
  with assms(2) normaliseState_json_empty [OF assms(1) True, of "uuids t"] show ?thesis
    by (simp add: init_def persist_def getState_def)
next
  case False
  with assms(2) normaliseState_json [OF assms(1) False, of "uuids t"] show ?thesis
    by (simp add: init_def persist_def getState_def)
qed

theorem save_load_roundtrip_witness:
  "canonical_document demo_env small_office \<and> canonical_document demo_env empty_office \<and>
   writeOk demo_env (writes absent_store) \<and>
   getState new_store \<noteq> small_office \<and>
   (\<exists>s'. init demo_env
            (new_store\<lparr>disk := disk (snd (persist demo_env (absent_store\<lparr>state := small_office\<rparr>)))\<rparr>)
           = Some (Inr (), s') \<and> getState s' = small_office) \<and>
   (\<exists>s'. init demo_env
            (new_store\<lparr>disk := disk (snd (persist demo_env (absent_store\<lparr>state := empty_office\<rparr>)))\<rparr>)
           = Some (Inr (), s') \<and>
         getState s' = empty_office\<lparr>employees := employees DEFAULT_STATE\<rparr>)"
proof -
  have c: "canonical_document demo_env small_office"
    by (simp add: canonical_document_def canonical_employee_def canonical_absence_def
        small_office_def seed_def date_gt_def demo_env_def demo_date_def trim_def is_space_def)
  have c0: "canonical_document demo_env empty_office"
    by (simp add: canonical_document_def empty_office_def)
  have w: "writeOk demo_env (writes absent_store)"
    by (simp add: demo_env_def)
  have n: "getState new_store \<noteq> small_office"
    by (simp add: getState_def new_store_def small_office_def DEFAULT_STATE_def)
  have e: "employees small_office \<noteq> []" "employees empty_office = []"
    by (simp_all add: small_office_def empty_office_def)
  from save_load_roundtrip [OF c w, of new_store] e(1)
  have a: "\<exists>s'. init demo_env
            (new_store\<lparr>disk := disk (snd (persist demo_env (absent_store\<lparr>state := small_office\<rparr>)))\<rparr>)
           = Some (Inr (), s') \<and> getState s' = small_office"
    by auto
  from save_load_roundtrip [OF c0 w, of new_store] e(2)
  have b: "\<exists>s'. init demo_env
            (new_store\<lparr>disk := disk (snd (persist demo_env (absent_store\<lparr>state := empty_office\<rparr>)))\<rparr>)
           = Some (Inr (), s') \<and>
         getState s' = empty_office\<lparr>employees := employees DEFAULT_STATE\<rparr>"
    by auto
  from a b c c0 w n show ?thesis
    by blast
qed

text \<open>
  C6 as the spec states it fails on a canonical document without employees: loading
  puts the six default employees in.
\<close>

theorem save_load_empty_counterexample:
  "canonical_document demo_env empty_office \<and>
   (\<exists>s'. init demo_env
            (new_store\<lparr>disk := disk (snd (persist demo_env (absent_store\<lparr>state := empty_office\<rparr>)))\<rparr>)
           = Some (Inr (), s') \<and>
         employees (getState s') = employees DEFAULT_STATE \<and>
         getState s' \<noteq> empty_office)"
  by (simp add: canonical_document_def empty_office_def init_def persist_def normalise_defs
      demo_defs absent_store_def getState_def)

section \<open>Identifiers of a normalised employee list\<close>

text \<open>
  The loop ends when the generator never repeats an identifier: each identifier it
  draws that is taken is one taken identifier fewer among those still to come.
\<close>

lemma fresh_candidate_ends_aux:
  assumes "inj (randomUUID E)" and "finite taken"
  shows "card (taken \<inter> randomUUID E ` {k..}) = n \<Longrightarrow>
         \<exists>c k'. fresh_candidate E taken (randomUUID E k) (Suc k) = Some (c, k') \<and>
                c \<notin> taken \<and> c \<in> randomUUID E ` {k..<k'}"
proof (induction n arbitrary: k)
  case 0
  have "finite (taken \<inter> randomUUID E ` {k..})"
    using assms(2) by simp
  with 0 have "taken \<inter> randomUUID E ` {k..} = {}"
    by simp
  then have "randomUUID E k \<notin> taken"
    by auto
  then show ?case
    by (auto simp: fresh_candidate.simps)
next
  case (Suc n)
  show ?case
  proof (cases "randomUUID E k \<in> taken")
    case False
    then show ?thesis
      by (auto simp: fresh_candidate.simps)
  next
    case True
    have split: "{k..} = insert k {Suc k..}"
      by auto
    have notin: "randomUUID E k \<notin> randomUUID E ` {Suc k..}"
      using assms(1) by (auto dest: injD)
    have "taken \<inter> randomUUID E ` {k..} =
          insert (randomUUID E k) (taken \<inter> randomUUID E ` {Suc k..})"
      using True by (subst split) auto
    moreover have "finite (taken \<inter> randomUUID E ` {Suc k..})"
      using assms(2) by simp
    moreover have "randomUUID E k \<notin> taken \<inter> randomUUID E ` {Suc k..}"
      using notin by simp
    ultimately have "card (taken \<inter> randomUUID E ` {Suc k..}) = n"
      using Suc.prems by simp
    from Suc.IH [OF this] obtain c k' where
      r: "fresh_candidate E taken (randomUUID E (Suc k)) (Suc (Suc k)) = Some (c, k')"
         "c \<notin> taken" "c \<in> randomUUID E ` {Suc k..<k'}"
      by blast
    have "fresh_candidate E taken (randomUUID E k) (Suc k) = Some (c, k')"
      using True r(1) by (subst fresh_candidate.simps) simp
    moreover have "c \<in> randomUUID E ` {k..<k'}"
      using r(3) by auto
    ultimately show ?thesis
      using r(2) by blast
  qed
qed

lemma fresh_candidate_ends:
  assumes "inj (randomUUID E)" and "finite taken"
  shows "\<exists>c k'. fresh_candidate E taken candidate k = Some (c, k') \<and> c \<notin> taken"
proof (cases "candidate \<in> taken")
  case False
  then show ?thesis
    by (simp add: fresh_candidate.simps)
next
  case True
  from fresh_candidate_ends_aux [OF assms refl, of k] obtain c k' where
    "fresh_candidate E taken (randomUUID E k) (Suc k) = Some (c, k')" "c \<notin> taken"
    by blast
  with True show ?thesis
    by (subst fresh_candidate.simps) simp
qed

lemma normaliseEmployeeList_from_distinct:
  assumes "inj (randomUUID E)"
  shows "finite taken \<Longrightarrow>
         \<exists>es k'. normaliseEmployeeList_from E taken xs k = Some (es, k') \<and>
                 length es = length xs \<and> distinct (map e_id es) \<and>
                 set (map e_id es) \<inter> taken = {}"
proof (induction xs arbitrary: taken k)
  case Nil
  then show ?case by simp
next
  case (Cons x xs)
  obtain n k1 where n: "normaliseEmployee E x k = (n, k1)"
    by (cases "normaliseEmployee E x k")
  obtain c0 k2 where c0: "(if e_id n \<noteq> [] then (e_id n, k1) else (randomUUID E k1, Suc k1)) = (c0, k2)"
    by (cases "if e_id n \<noteq> [] then (e_id n, k1) else (randomUUID E k1, Suc k1)")
  from fresh_candidate_ends [OF assms Cons.prems] obtain c k3 where
    c: "fresh_candidate E taken c0 k2 = Some (c, k3)" "c \<notin> taken"
    by blast
  from Cons.prems have "finite (insert c taken)"
    by simp
  from Cons.IH [OF this] obtain es k' where
    es: "normaliseEmployeeList_from E (insert c taken) xs k3 = Some (es, k')"
        "length es = length xs" "distinct (map e_id es)"
        "set (map e_id es) \<inter> insert c taken = {}"
    by blast
  have "normaliseEmployeeList_from E taken (x # xs) k = Some (n\<lparr>e_id := c\<rparr> # es, k')"
    using n c0 c(1) es(1) by simp
  moreover have "distinct (map e_id (n\<lparr>e_id := c\<rparr> # es))"
    using es(3,4) by auto
  moreover have "set (map e_id (n\<lparr>e_id := c\<rparr> # es)) \<inter> taken = {}"
    using es(4) c(2) by auto
  ultimately show ?case
    using es(2) by simp
qed

text \<open>
  When the generator repeats no identifier and draws none that an entry of the list
  carries, an identifier it draws now is not taken, and the loop runs at most once.
\<close>

lemma raw_id_Some:
  assumes "raw_id x = Some t" and "normaliseEmployee E x k = (n, k1)"
  shows "e_id n = t \<and> k1 = k \<and> t \<noteq> []"
proof (cases "get x ''id''")
  case (JStr s)
  with assms show ?thesis
    by (auto simp: raw_id_def normaliseEmployee_def split: if_splits)
qed (use assms in \<open>simp_all add: raw_id_def split: if_splits\<close>)

lemma raw_id_None:
  assumes "raw_id x = None" and "normaliseEmployee E x k = (n, k1)"
  shows "e_id n = randomUUID E k \<and> k1 = Suc k"
proof (cases "get x ''id''")
  case (JStr s)
  with assms show ?thesis
    by (auto simp: raw_id_def normaliseEmployee_def split: if_splits)
qed (use assms in \<open>auto simp: raw_id_def normaliseEmployee_def split: if_splits\<close>)

lemma head_candidate:
  assumes inj: "inj (randomUUID E)"
    and seen: "seen \<inter> range (randomUUID E) = {}"
    and taken: "taken = seen \<union> G"
    and G: "G \<subseteq> randomUUID E ` {..<k}"
    and x: "set_option (raw_id x) \<inter> range (randomUUID E) = {}"
    and n: "normaliseEmployee E x k = (n, k1)"
    and c: "fresh_candidate E taken
              (if e_id n \<noteq> [] then e_id n else randomUUID E k1)
              (if e_id n \<noteq> [] then k1 else Suc k1) = Some (c, k3)"
  shows "k \<le> k3 \<and>
         (case raw_id x of
            Some t \<Rightarrow> if t \<in> seen then c \<in> randomUUID E ` {k..<k3} else c = t
          | None \<Rightarrow> c \<in> randomUUID E ` {k..<k3}) \<and>
         (\<exists>G'. insert c taken = (seen \<union> set_option (raw_id x)) \<union> G' \<and>
               G' \<subseteq> randomUUID E ` {..<k3})"
proof -
  have fresh: "randomUUID E j \<notin> taken" if "k \<le> j" for j
  proof
    assume "randomUUID E j \<in> taken"
    with seen taken have "randomUUID E j \<in> G"
      by auto
    with G obtain j' where "j' < k" "randomUUID E j = randomUUID E j'"
      by auto
    with inj that show False
      by (auto dest: injD)
  qed
  have drawn: "insert (randomUUID E j) taken = (seen \<union> A) \<union> insert (randomUUID E j) G \<and>
               insert (randomUUID E j) G \<subseteq> randomUUID E ` {..<Suc j}"
    if "k \<le> j" "A \<subseteq> seen" for j A
    using that taken G by auto
  show ?thesis
  proof (cases "raw_id x")
    case None
    from raw_id_None [OF None n] have n': "e_id n = randomUUID E k" "k1 = Suc k"
      by simp_all
    show ?thesis
    proof (cases "randomUUID E k = []")
      case False
      with c n' fresh [of k] have "c = randomUUID E k" "k3 = Suc k"
        by (simp_all add: fresh_candidate.simps)
      with None drawn [of k "{}"] show ?thesis
        by auto
    next
      case True
      with c n' fresh [of "Suc k"] have "c = randomUUID E (Suc k)" "k3 = Suc (Suc k)"
        by (simp_all add: fresh_candidate.simps)
      with None drawn [of "Suc k" "{}"] show ?thesis
        by auto
    qed
  next
    case (Some t)
    from raw_id_Some [OF Some n] have n': "e_id n = t" "k1 = k" "t \<noteq> []"
      by simp_all
    show ?thesis
    proof (cases "t \<in> seen")
      case True
      then have "t \<in> taken"
        using taken by simp
      then have "fresh_candidate E taken t k = fresh_candidate E taken (randomUUID E k) (Suc k)"
        by (subst fresh_candidate.simps) simp
      with c n' fresh [of k] have "c = randomUUID E k" "k3 = Suc k"
        by (simp_all add: fresh_candidate.simps)
      with Some True drawn [of k "{t}"] show ?thesis
        by auto
    next
      case False
      from x Some have "t \<notin> range (randomUUID E)"
        by auto
      with G have "t \<notin> G"
        by auto
      with False taken have "t \<notin> taken"
        by simp
      with c n' have "c = t" "k3 = k"
        by (simp_all add: fresh_candidate.simps)
      with Some False taken G show ?thesis
        by auto
    qed
  qed
qed

lemma keeps_first_mono:
  "keeps_first gen seen xs es \<Longrightarrow> gen \<subseteq> gen' \<Longrightarrow> keeps_first gen' seen xs es"
  by (induction gen seen xs es rule: keeps_first.induct) (auto split: option.splits if_splits)

lemma normaliseEmployeeList_from_keeps_first:
  assumes inj: "inj (randomUUID E)"
  shows "normaliseEmployeeList_from E taken xs k = Some (es, k') \<Longrightarrow>
         list_all (\<lambda>x. set_option (raw_id x) \<inter> range (randomUUID E) = {}) xs \<Longrightarrow>
         seen \<inter> range (randomUUID E) = {} \<Longrightarrow> taken = seen \<union> G \<Longrightarrow>
         G \<subseteq> randomUUID E ` {..<k} \<Longrightarrow>
         k \<le> k' \<and> keeps_first (randomUUID E ` {k..<k'}) seen xs es"
proof (induction xs arbitrary: taken k es seen G)
  case Nil
  then show ?case by simp
next
  case (Cons x xs)
  obtain n k1 where n: "normaliseEmployee E x k = (n, k1)"
    by (cases "normaliseEmployee E x k")
  from Cons.prems(1) n obtain c k3 rest where
    c: "fresh_candidate E taken
          (if e_id n \<noteq> [] then e_id n else randomUUID E k1)
          (if e_id n \<noteq> [] then k1 else Suc k1) = Some (c, k3)"
    and rest: "normaliseEmployeeList_from E (insert c taken) xs k3 = Some (rest, k')"
    and es: "es = n\<lparr>e_id := c\<rparr> # rest"
    by (auto split: option.splits if_splits)
  from Cons.prems(2) have x: "set_option (raw_id x) \<inter> range (randomUUID E) = {}"
    and xs: "list_all (\<lambda>x. set_option (raw_id x) \<inter> range (randomUUID E) = {}) xs"
    by simp_all
  from head_candidate [OF inj Cons.prems(3,4,5) x n c] obtain G' where
    h: "k \<le> k3"
       "case raw_id x of
          Some t \<Rightarrow> if t \<in> seen then c \<in> randomUUID E ` {k..<k3} else c = t
        | None \<Rightarrow> c \<in> randomUUID E ` {k..<k3}"
       "insert c taken = (seen \<union> set_option (raw_id x)) \<union> G'"
       "G' \<subseteq> randomUUID E ` {..<k3}"
    by blast
  from x Cons.prems(3) have seen': "(seen \<union> set_option (raw_id x)) \<inter> range (randomUUID E) = {}"
    by auto
  from Cons.IH [OF rest xs seen' h(3,4)] have
    ih: "k3 \<le> k'" "keeps_first (randomUUID E ` {k3..<k'}) (seen \<union> set_option (raw_id x)) xs rest"
    by simp_all
  have sub: "randomUUID E ` {k3..<k'} \<subseteq> randomUUID E ` {k..<k'}"
    "randomUUID E ` {k..<k3} \<subseteq> randomUUID E ` {k..<k'}"
    using h(1) ih(1) by auto
  have head: "case raw_id x of
          Some t \<Rightarrow> if t \<in> seen then c \<in> randomUUID E ` {k..<k'} else c = t
        | None \<Rightarrow> c \<in> randomUUID E ` {k..<k'}"
    using h(2) sub(2) by (auto split: option.splits if_splits)
  from keeps_first_mono [OF ih(2) sub(1)] head h(1) ih(1) show ?case
    by (auto simp: es split: option.splits if_splits)
qed

lemma keeps_first_nth:
  "keeps_first gen seen xs es \<Longrightarrow> i < length xs \<Longrightarrow>
   (if raw_id (xs ! i) \<noteq> None \<and> raw_id (xs ! i) \<notin> Some ` seen \<and>
       raw_id (xs ! i) \<notin> set (map raw_id (take i xs))
    then Some (e_id (es ! i)) = raw_id (xs ! i)
    else e_id (es ! i) \<in> gen)"
proof (induction gen seen xs es arbitrary: i rule: keeps_first.induct)
  case (2 gen seen x xs e es)
  show ?case
  proof (cases i)
    case 0
    with "2.prems" show ?thesis
      by (auto split: option.splits if_splits)
  next
    case (Suc j)
    with "2.prems" have "keeps_first gen (seen \<union> set_option (raw_id x)) xs es" "j < length xs"
      by simp_all
    from "2.IH" [OF this] Suc show ?thesis
      by (cases "raw_id x") (auto split: if_splits)
  qed
qed simp_all

lemma inj_demo_uuid: "inj (randomUUID demo_env)"
proof (rule injI)
  fix m n
  assume "randomUUID demo_env m = randomUUID demo_env n"
  then have "length (demo_uuid m) = length (demo_uuid n)"
    by (simp add: demo_env_def)
  then show "m = n"
    by (simp add: demo_uuid_def)
qed

text \<open>
  C9. When the generator never repeats an identifier, normalising a raw employee list
  ends and gives one employee for each entry, with pairwise different identifiers.
  When moreover it draws no identifier that an entry of the list carries, the first
  entry to carry an identifier keeps it (trimmed, as each record is normalised), and
  every other entry (one without an identifier, or with one an earlier entry carries)
  has an identifier drawn during the call.
\<close>

theorem normaliseEmployeeList_distinct_ids:
  assumes "inj (randomUUID E)"
  shows "\<exists>es k'. normaliseEmployeeList E raws k = Some (es, k') \<and>
           length es = length raws \<and> distinct (map e_id es) \<and>
           (list_all (\<lambda>x. set_option (raw_id x) \<inter> range (randomUUID E) = {}) raws \<longrightarrow>
              (\<forall>i < length raws.
                 if first_occurrence raws i then Some (e_id (es ! i)) = raw_id (raws ! i)
                 else e_id (es ! i) \<in> randomUUID E ` {k..<k'}))"
proof -
  from normaliseEmployeeList_from_distinct [OF assms, of "{}" raws k] obtain es k' where
    r: "normaliseEmployeeList_from E {} raws k = Some (es, k')"
       "length es = length raws" "distinct (map e_id es)"
    by auto
  have "\<forall>i < length raws.
          if first_occurrence raws i then Some (e_id (es ! i)) = raw_id (raws ! i)
          else e_id (es ! i) \<in> randomUUID E ` {k..<k'}"
    if f: "list_all (\<lambda>x. set_option (raw_id x) \<inter> range (randomUUID E) = {}) raws"
  proof (intro allI impI)
    fix i
    assume i: "i < length raws"
    from normaliseEmployeeList_from_keeps_first [OF assms r(1) f, of "{}" "{}"]
    have "keeps_first (randomUUID E ` {k..<k'}) {} raws es"
      by simp
    from keeps_first_nth [OF this i] show
      "if first_occurrence raws i then Some (e_id (es ! i)) = raw_id (raws ! i)
       else e_id (es ! i) \<in> randomUUID E ` {k..<k'}"
      by (simp add: first_occurrence_def)
  qed
  with r show ?thesis
    by (auto simp: normaliseEmployeeList_def)
qed

theorem normaliseEmployeeList_distinct_ids_witness:
  "inj (randomUUID demo_env) \<and>
   list_all (\<lambda>x. set_option (raw_id x) \<inter> range (randomUUID demo_env) = {})
     [JObj [(''id'', JStr ''a''), (''name'', JStr ''First'')],
      JObj [(''id'', JStr '' a ''), (''name'', JStr ''Second'')]] \<and>
   map_option (\<lambda>(es, k'). map e_id es)
     (normaliseEmployeeList demo_env
        [JObj [(''id'', JStr ''a''), (''name'', JStr ''First'')],
         JObj [(''id'', JStr '' a ''), (''name'', JStr ''Second'')]] 0) = Some [''a'', ''uuid-'']"
proof -
  have f: "list_all (\<lambda>x. set_option (raw_id x) \<inter> range (randomUUID demo_env) = {})
     [JObj [(''id'', JStr ''a''), (''name'', JStr ''First'')],
      JObj [(''id'', JStr '' a ''), (''name'', JStr ''Second'')]]"
    by (auto simp: raw_id_def trim_def is_space_def demo_env_def demo_uuid_def)
  from normaliseEmployeeList_distinct_ids [OF inj_demo_uuid,
      of "[JObj [(''id'', JStr ''a''), (''name'', JStr ''First'')],
           JObj [(''id'', JStr '' a ''), (''name'', JStr ''Second'')]]" 0]
    inj_demo_uuid f
  show ?thesis
    by (simp add: normalise_defs demo_defs fresh_candidate.simps)
qed

end
